theory Spec2Isabelle
  imports Complex_Main "HOL-Library.Log_Nat"
begin

section \<open>The strong-search session engine of Code-Dock (strong-search.js)\<close>

text \<open>
  The module \<open>StrongSearch\<close> keeps its session in variables of one closure and renders
  every event into DOM elements.  The embedding keeps the module variables in one record
  and passes it through every function.  Log entries are DOM elements that are shared
  between the log container and the two correlation tables, and an output that arrives
  later is written into the element of its call; so the elements live in a store
  (\<open>heap\<close>, addressed by position) and the container and the tables hold addresses.
  The HTML templates are kept as constructors and not as strings, and the Chinese
  texts of the source are written in English.
\<close>

subsection \<open>Values received from the wire\<close>

text \<open>
  A structured log payload, after \<open>JSON.parse\<close>.  A field is \<open>None\<close> when it is
  missing or falsy (the source tests every field with \<open>||\<close> or \<open>?:\<close>), and
  \<open>Some s\<close> when it is a truthy value whose string conversion is \<open>s\<close>.
\<close>

record tool_message =
  tool_name :: "string option"
  timestamp :: "string option"
  parameters :: "string option"
  output_preview :: "string option"

text \<open>
  The \<open>message\<close> argument of \<open>addStrongSearchLog\<close>: a string, an object, or a
  value of another type (a number, a boolean, \<open>undefined\<close>), kept as its string
  conversion \<open>String(message)\<close>.
\<close>

datatype message = MString string | MObject tool_message | MOther string

subsection \<open>Strings\<close>

text \<open>
  A string is kept as the bytes of its UTF-8 encoding.  \<open>whiteSpace\<close> lists the code
  points that \<open>String.prototype.trim\<close> removes, the white space and the line
  terminators of ECMAScript: U+0009 to U+000D, U+0020, U+00A0, U+1680, U+2000 to
  U+200A, U+2028, U+2029, U+202F, U+205F, U+3000 and U+FEFF.
\<close>

definition whiteSpace :: "string list" where
  "whiteSpace =
     [[CHR 0x09], [CHR 0x0A], [CHR 0x0B], [CHR 0x0C], [CHR 0x0D], [CHR 0x20],
      [CHR 0xC2, CHR 0xA0],
      [CHR 0xE1, CHR 0x9A, CHR 0x80],
      [CHR 0xE2, CHR 0x80, CHR 0x80], [CHR 0xE2, CHR 0x80, CHR 0x81],
      [CHR 0xE2, CHR 0x80, CHR 0x82], [CHR 0xE2, CHR 0x80, CHR 0x83],
      [CHR 0xE2, CHR 0x80, CHR 0x84], [CHR 0xE2, CHR 0x80, CHR 0x85],
      [CHR 0xE2, CHR 0x80, CHR 0x86], [CHR 0xE2, CHR 0x80, CHR 0x87],
      [CHR 0xE2, CHR 0x80, CHR 0x88], [CHR 0xE2, CHR 0x80, CHR 0x89],
      [CHR 0xE2, CHR 0x80, CHR 0x8A],
      [CHR 0xE2, CHR 0x80, CHR 0xA8], [CHR 0xE2, CHR 0x80, CHR 0xA9],
      [CHR 0xE2, CHR 0x80, CHR 0xAF],
      [CHR 0xE2, CHR 0x81, CHR 0x9F],
      [CHR 0xE3, CHR 0x80, CHR 0x80],
      [CHR 0xEF, CHR 0xBB, CHR 0xBF]]"

text \<open>\<open>str.startsWith(w)\<close> and \<open>str.includes(w)\<close>.\<close>

definition startsWith :: "string \<Rightarrow> string \<Rightarrow> bool" where
  "startsWith str w = (take (length w) str = w)"

fun includesText :: "string \<Rightarrow> string \<Rightarrow> bool" where
  "includesText [] w = (w = [])"
| "includesText (x # xs) w = (startsWith (x # xs) w \<or> includesText xs w)"

text \<open>
  The length of the first of the encodings \<open>ws\<close> that \<open>str\<close> starts with, \<open>0\<close> when
  there is none; and \<open>str\<close> without the encodings of \<open>ws\<close> at its front.
\<close>

definition spaceAtStart :: "string list \<Rightarrow> string \<Rightarrow> nat" where
  "spaceAtStart ws str = (case filter (startsWith str) ws of [] \<Rightarrow> 0 | w # _ \<Rightarrow> length w)"

function stripStart :: "string list \<Rightarrow> string \<Rightarrow> string" where
  "stripStart ws str =
     (if spaceAtStart ws str = 0 then str else stripStart ws (drop (spaceAtStart ws str) str))"
  by pat_completeness auto
termination
proof (relation "measure (\<lambda>(ws, str). length str)")
  show "wf (measure (\<lambda>(ws, str). length str))" by simp
next
  fix ws :: "string list" and str :: string
  assume pos: "spaceAtStart ws str \<noteq> 0"
  have "spaceAtStart ws str \<le> length str"
  proof (cases "filter (startsWith str) ws")
    case Nil
    then show ?thesis by (simp add: spaceAtStart_def)
  next
    case (Cons w rest)
    then have "w \<in> set (filter (startsWith str) ws)" by simp
    then have "take (length w) str = w" by (simp add: startsWith_def)
    then have "length (take (length w) str) = length w" by simp
    then have "length w \<le> length str" by (auto simp: min_def split: if_splits)
    then show ?thesis using Cons by (simp add: spaceAtStart_def)
  qed
  then show "((ws, drop (spaceAtStart ws str) str), (ws, str)) \<in> measure (\<lambda>(ws, str). length str)"
    using pos by simp
qed

declare stripStart.simps [simp del]

text \<open>\<open>String.prototype.trim\<close>: the white space is removed from both ends.\<close>

definition trim :: "string \<Rightarrow> string" where
  "trim str = rev (stripStart (map rev whiteSpace) (rev (stripStart whiteSpace str)))"

subsection \<open>Rendered entries\<close>

text \<open>
  The HTML that \<open>addStrongSearchLog\<close> builds, one constructor per template of the source.
  \<open>Empty\<close> is the empty string the variable \<open>formattedMessage\<close> starts with.
\<close>

datatype formatted =
    Empty
  | ToolCallBanner string string
  | AgentThinkingText string
  | AgentThinkingJson tool_message
  | JsonPre tool_message
  | Escaped string

text \<open>The test \<open>formattedMessage.length > 0\<close>: every template is a non-empty string.\<close>

fun formattedNonEmpty :: "formatted \<Rightarrow> bool" where
  "formattedNonEmpty Empty = False"
| "formattedNonEmpty (Escaped s) = (s \<noteq> [])"
| "formattedNonEmpty _ = True"

text \<open>
  The element with class \<open>tool-output-container\<close> inside an entry: absent, present and
  hidden (as the banner template creates it), or shown with an output.
\<close>

datatype container = NoContainer | Hidden | Shown string

record entry =
  className :: string
  iconClass :: string
  stamp :: string
  body :: formatted
  outputContainer :: container

type_synonym addr = nat

subsection \<open>The environment\<close>

text \<open>
  \<open>Utils.escapeHtml\<close> belongs to a module that is not part of the sources at hand, and
  \<open>JSON.parse\<close> is the platform's: both are parameters.  \<open>jsonParse m\<close> is \<open>Some p\<close>
  when \<open>JSON.parse(m)\<close> returns the object \<open>p\<close>, and \<open>None\<close> when it throws.
  The next two fields describe the prototype chain of a \<open>div\<close> element as it is seen
  from an object that is no element; they are consulted only after a tool named
  \<open>__proto__\<close> has made an entry the prototype of \<open>toolCallsByName\<close>.
  \<open>elementProperty n\<close> says that reading the property \<open>n\<close> through that chain
  throws or gives a truthy value.  \<open>elementAssign n\<close> is what the assignment to the
  property \<open>n\<close> does there when the object has no property \<open>n\<close> of its own: it creates
  the property (nothing of that name in the chain, or a writable data property), it
  does nothing (an accessor without a setter or a data property that is not writable;
  the script is not in strict mode), or it throws a \<open>TypeError\<close> (an accessor whose
  setter refuses the receiver, as for \<open>className\<close>, \<open>id\<close> and \<open>innerHTML\<close>).
  \<open>markedParse\<close> is the Markdown library's \<open>marked.parse\<close>, \<open>None\<close> when it throws.
\<close>

datatype assign_outcome = AssignStores | AssignIgnored | AssignThrows

record env =
  escapeHtml :: "string \<Rightarrow> string"
  jsonParse :: "string \<Rightarrow> tool_message option"
  elementProperty :: "string \<Rightarrow> bool"
  elementAssign :: "string \<Rightarrow> assign_outcome"
  markedParse :: "string \<Rightarrow> string option"

text \<open>\<open>String(Date.now())\<close> and \<open>new Date().toLocaleTimeString()\<close> at the time of a call.\<close>

record clock =
  dateNow :: string
  localeTime :: string

subsection \<open>Module state\<close>

datatype ready_state = CONNECTING | OPEN | CLOSING | CLOSED

record progress_bar =
  percent :: int
  title :: "string option"

datatype conn_status = StatusConnecting | StatusConnected | StatusDisconnected

text \<open>
  What the result tab shows for one file: a text, or the string conversion of a value
  that the read \<open>fileContents[file]\<close> inherited from \<open>Object.prototype\<close>.
\<close>

datatype shown = Text string | InheritedValue string

datatype structure_view = NoStructureInfo | StructureWithoutTree | StructureTree string

text \<open>
  The result tab once filled: the parsed answer (\<open>None\<close> is the note that no answer
  was given), the project structure, the files with what is shown for each (the empty
  list is the note that no file was found), and the execution time.
\<close>

record result_view =
  answerView :: "string option"
  structureView :: structure_view
  fileViews :: "(string \<times> shown) list"
  timeView :: real

datatype result_container = ContainerEmpty | ContainerResult result_view

text \<open>
  The variables of the closure.  An element reference that \<open>init\<close> may leave \<open>null\<close> is
  an option (for the query input, of its value; for the modal, a flag).
  \<open>toolCallsByName\<close> is an object used as a dictionary whose keys are tool
  names chosen by the peer, so its prototype is part of the model:
  \<open>toolCallsByNameProto\<close> is \<open>None\<close> while the prototype is \<open>Object.prototype\<close> and
  \<open>Some e\<close> after the assignment \<open>toolCallsByName['__proto__'] = e\<close>.  The keys of
  \<open>toolCallMap\<close> all start with \<open>tool-call-\<close>, which no inherited property does.
  The children of the log container are the addresses of its entries, oldest first.
  The buttons that \<open>updateStrongSearchUIState\<close> enables and disables are a function of
  \<open>isStrongSearching\<close> and are not kept, and neither are the tabs, the scroll position
  and the styles.
\<close>

record state =
  currentStrongSearchCodebase :: "string option"
  strongSearchSocket :: "ready_state option"
  strongSearchClientId :: "string option"
  isStrongSearching :: bool
  toolCallMap :: "string \<rightharpoonup> addr"
  toolCallsByName :: "string \<rightharpoonup> addr"
  toolCallsByNameProto :: "addr option"
  heap :: "entry list"
  strongSearchModal :: bool
  strongSearchModalLogContainer :: "addr list option"
  strongSearchModalProgressBar :: "progress_bar option"
  strongSearchModalResultContainer :: "result_container option"
  strongSearchModalQueryInput :: "string option"
  strongSearchConnectionStatus :: "conn_status option"

datatype js_error = TypeError

subsection \<open>Correlation tables\<close>

definition generateToolCallId :: "string \<Rightarrow> string \<Rightarrow> string" where
  "generateToolCallId toolName ts = ''tool-call-'' @ toolName @ ''-'' @ ts"

definition objectPrototypeKeys :: "string list" where
  "objectPrototypeKeys =
     [''constructor'', ''toString'', ''toLocaleString'', ''valueOf'', ''hasOwnProperty'',
      ''isPrototypeOf'', ''propertyIsEnumerable'', ''__proto__'', ''__defineGetter__'',
      ''__defineSetter__'', ''__lookupGetter__'', ''__lookupSetter__'']"

text \<open>
  The read \<open>toolCallsByName[toolName]\<close>: an entry, nothing (\<open>undefined\<close>), or an
  inherited value that is no entry (a method of \<open>Object.prototype\<close>, the prototype
  itself, a property of the element that became the prototype).
\<close>

datatype lookup = Absent | Element addr | NonElement

definition lookupByName :: "env \<Rightarrow> state \<Rightarrow> string \<Rightarrow> lookup" where
  "lookupByName E s n =
     (if n = ''__proto__'' then
        (case toolCallsByNameProto s of None \<Rightarrow> NonElement | Some e \<Rightarrow> Element e)
      else
        (case toolCallsByName s n of
           Some e \<Rightarrow> Element e
         | None \<Rightarrow>
             if n \<in> set objectPrototypeKeys then NonElement
             else if toolCallsByNameProto s \<noteq> None \<and> elementProperty E n then NonElement
             else Absent))"

text \<open>
  The assignment \<open>toolCallsByName[toolName] = entry\<close>.  The name \<open>__proto__\<close> reaches
  the setter of \<open>Object.prototype\<close>, which makes the entry the prototype.  A name that
  the object has as its own property is overwritten.  Any other name creates a property,
  unless the prototype has been replaced by an entry: then the chain of the element
  decides (\<open>elementAssign\<close>).
\<close>

definition storeByName :: "env \<Rightarrow> string \<Rightarrow> addr \<Rightarrow> state \<Rightarrow> js_error + state" where
  "storeByName E toolName e s =
     (if toolName = ''__proto__'' then Inr (s\<lparr>toolCallsByNameProto := Some e\<rparr>)
      else if toolCallsByName s toolName = None \<and> toolCallsByNameProto s \<noteq> None then
        (case elementAssign E toolName of
           AssignStores \<Rightarrow> Inr (s\<lparr>toolCallsByName := (toolCallsByName s)(toolName \<mapsto> e)\<rparr>)
         | AssignIgnored \<Rightarrow> Inr s
         | AssignThrows \<Rightarrow> Inl TypeError)
      else Inr (s\<lparr>toolCallsByName := (toolCallsByName s)(toolName \<mapsto> e)\<rparr>))"

text \<open>
  The two assignments \<open>toolCallMap[toolCallId] = entry; toolCallsByName[toolName] = entry\<close>.
  When the second one throws, the first one has been made: the error comes with the
  state that it leaves.
\<close>

definition registerToolCall ::
  "env \<Rightarrow> string \<Rightarrow> string \<Rightarrow> addr \<Rightarrow> state \<Rightarrow> js_error \<times> state + state" where
  "registerToolCall E toolName ts e s =
     (let s1 = s\<lparr>toolCallMap := (toolCallMap s)(generateToolCallId toolName ts \<mapsto> e)\<rparr>
      in case storeByName E toolName e s1 of
           Inl err \<Rightarrow> Inl (err, s1)
         | Inr s2 \<Rightarrow> Inr s2)"

subsection \<open>The log container\<close>

definition maxLogEntries :: nat where
  "maxLogEntries = 200"

text \<open>
  \<open>while (container.children.length > maxLogEntries) container.removeChild(container.firstChild)\<close>
\<close>

function evictOldest :: "addr list \<Rightarrow> addr list" where
  "evictOldest children =
     (if length children > maxLogEntries then evictOldest (tl children) else children)"
  by pat_completeness auto
termination
  by (relation "measure length") (auto simp: maxLogEntries_def)

declare evictOldest.simps [simp del]

subsection \<open>addStrongSearchLog\<close>

definition noOutput :: string where
  "noOutput = ''[no output]''"

definition iconFor :: "bool \<Rightarrow> string \<Rightarrow> string" where
  "iconFor isToolCall level =
     (if isToolCall then
        (if level = ''tool_call_decision'' then ''fa-lightbulb''
         else if level = ''tool_output'' then ''fa-reply''
         else ''fa-wrench'')
      else if level = ''agent_thinking'' then ''fa-brain''
      else if level = ''error'' then ''fa-exclamation-circle''
      else if level = ''warning'' then ''fa-exclamation-triangle''
      else if level = ''success'' then ''fa-check-circle''
      else if level = ''debug'' then ''fa-bug''
      else if level = ''trace'' then ''fa-shoe-prints''
      else ''fa-info-circle'')"

text \<open>
  The output is written into the element of a call.  Both branches on the container
  (found, or created and appended) leave the element with a visible container that
  holds the output.
\<close>

definition attachOutput :: "addr \<Rightarrow> string \<Rightarrow> state \<Rightarrow> state" where
  "attachOutput e outputPreview s =
     (if e < length (heap s)
      then s\<lparr>heap := (heap s)[e := (heap s ! e)\<lparr>outputContainer := Shown outputPreview\<rparr>]\<rparr>
      else s)"

text \<open>
  The first block of the function (tool outputs).  The result is \<open>None\<close> when the block
  is left without a matching call, so that the function goes on; \<open>Some (Inr s')\<close> when
  the output was written into the element of a call and the function returned; and
  \<open>Some (Inl (TypeError, s))\<close> when the value found under the tool name is not an
  element, so that \<open>querySelector\<close> is not a function of it: the state is as it was.
\<close>

definition matchToolOutput ::
  "env \<Rightarrow> clock \<Rightarrow> state \<Rightarrow> message \<Rightarrow> string \<Rightarrow> (js_error \<times> state + state) option" where
  "matchToolOutput E c s msg level =
     (case msg of
        MObject m \<Rightarrow>
          (case tool_name m of
             Some toolName \<Rightarrow>
               if level = ''tool_output'' then
                 (let outputPreview = (case output_preview m of Some p \<Rightarrow> p | None \<Rightarrow> noOutput);
                      ts = (case timestamp m of Some t \<Rightarrow> t | None \<Rightarrow> dateNow c)
                  in case toolCallMap s (generateToolCallId toolName ts) of
                       Some e \<Rightarrow> Some (Inr (attachOutput e outputPreview s))
                     | None \<Rightarrow>
                         (case lookupByName E s toolName of
                            Element e \<Rightarrow> Some (Inr (attachOutput e outputPreview s))
                          | NonElement \<Rightarrow> Some (Inl (TypeError, s))
                          | Absent \<Rightarrow> None))
               else None
           | None \<Rightarrow> None)
      | _ \<Rightarrow> None)"

text \<open>
  The string branch of the second block parses a string only when it looks like a tool
  call: \<open>message.trim().startsWith('{') && message.includes('"tool_name":')\<close>.  A
  string that \<open>JSON.parse\<close> rejects is handled as a plain text by the \<open>catch\<close> block.
\<close>

definition looksLikeToolCall :: "string \<Rightarrow> bool" where
  "looksLikeToolCall str =
     (startsWith (trim str) ''{'' \<and> includesText str (CHR 0x22 # ''tool_name'' @ [CHR 0x22, CHR '':'']))"

definition parseToolCall :: "env \<Rightarrow> string \<Rightarrow> tool_message option" where
  "parseToolCall E str = (if looksLikeToolCall str then jsonParse E str else None)"

text \<open>
  The second block: the rendering of the message, whether it is a tool call
  (\<open>isToolCall\<close>), and the call to store, as tool name and timestamp.
\<close>

definition bannerOf :: "env \<Rightarrow> clock \<Rightarrow> string \<Rightarrow> tool_message
    \<Rightarrow> formatted \<times> bool \<times> (string \<times> string) option" where
  "bannerOf E c toolName m =
     (ToolCallBanner (escapeHtml E toolName)
        (case parameters m of Some p \<Rightarrow> p | None \<Rightarrow> ''{}''),
      True,
      Some (toolName, (case timestamp m of Some t \<Rightarrow> t | None \<Rightarrow> dateNow c)))"

definition formatMessage :: "env \<Rightarrow> clock \<Rightarrow> message \<Rightarrow> string
    \<Rightarrow> formatted \<times> bool \<times> (string \<times> string) option" where
  "formatMessage E c msg level =
     (case msg of
        MObject m \<Rightarrow>
          (case tool_name m of
             Some toolName \<Rightarrow>
               if level = ''tool_call_decision'' then (Empty, True, None)
               else if level = ''tool_call'' then bannerOf E c toolName m
               else (Empty, True, None)
           | None \<Rightarrow>
               if level = ''agent_thinking'' then (AgentThinkingJson m, False, None)
               else (JsonPre m, False, None))
      | MString str \<Rightarrow>
          if level = ''agent_thinking'' then (AgentThinkingText (escapeHtml E str), False, None)
          else
            (case parseToolCall E str of
               Some p \<Rightarrow>
                 (case tool_name p of
                    Some toolName \<Rightarrow> bannerOf E c toolName p
                  | None \<Rightarrow> (Escaped (escapeHtml E str), False, None))
             | None \<Rightarrow> (Escaped (escapeHtml E str), False, None))
      | MOther str \<Rightarrow> (Escaped (escapeHtml E str), False, None))"

text \<open>
  The last block: the entry is filled and appended, and the oldest entries are removed.
  The element of every call is created by \<open>document.createElement\<close>; the model gives it
  an address when it is stored or appended, which is when it becomes reachable.
\<close>

definition appendEntry :: "entry \<Rightarrow> state \<Rightarrow> state" where
  "appendEntry en s =
     (case strongSearchModalLogContainer s of
        None \<Rightarrow> s
      | Some children \<Rightarrow>
          s\<lparr>heap := heap s @ [en],
            strongSearchModalLogContainer := Some (evictOldest (children @ [length (heap s)]))\<rparr>)"

text \<open>
  The assignments of the string branch stand inside its \<open>try\<close> block, whose \<open>catch\<close>
  block is empty; those of the object branch stand outside of any.
\<close>

definition insideTry :: "message \<Rightarrow> bool" where
  "insideTry msg = (case msg of MString _ \<Rightarrow> True | _ \<Rightarrow> False)"

text \<open>
  The element that \<open>document.createElement\<close> has made, before \<open>innerHTML\<close> is set.
\<close>

definition unfilled :: "string \<Rightarrow> entry" where
  "unfilled level =
     \<lparr>className = level, iconClass = [], stamp = [], body = Empty, outputContainer = NoContainer\<rparr>"

text \<open>
  The whole function.  When the assignment to \<open>toolCallsByName\<close> throws inside the
  \<open>try\<close> block, the function goes on and appends the banner.  When it throws in the
  object branch, the function is left: nothing is appended, and the element stays
  reachable through \<open>toolCallMap\<close> alone, unfilled.
\<close>

definition addStrongSearchLog ::
  "env \<Rightarrow> clock \<Rightarrow> state \<Rightarrow> message \<Rightarrow> string \<Rightarrow> js_error \<times> state + state" where
  "addStrongSearchLog E c s msg level =
     (if strongSearchModalLogContainer s = None then Inr s
      else
        (case matchToolOutput E c s msg level of
           Some r \<Rightarrow> r
         | None \<Rightarrow>
             (case formatMessage E c msg level of
                (formattedMessage, isToolCall, reg) \<Rightarrow>
                  (let e = length (heap s);
                       finish = (\<lambda>s1.
                         if formattedNonEmpty formattedMessage
                         then appendEntry
                                \<lparr>className = level, iconClass = iconFor isToolCall level,
                                 stamp = localeTime c, body = formattedMessage,
                                 outputContainer =
                                   (case formattedMessage of
                                      ToolCallBanner _ _ \<Rightarrow> Hidden | _ \<Rightarrow> NoContainer)\<rparr> s1
                         else s1)
                   in case reg of
                        None \<Rightarrow> Inr (finish s)
                      | Some (toolName, ts) \<Rightarrow>
                          (case registerToolCall E toolName ts e s of
                             Inr s1 \<Rightarrow> Inr (finish s1)
                           | Inl (err, s1) \<Rightarrow>
                               if insideTry msg then Inr (finish s1)
                               else Inl (err, s1\<lparr>heap := heap s1 @ [unfilled level]\<rparr>))))))"

text \<open>
  The state that a call leaves, whether it returns or throws; and a call of
  \<open>addStrongSearchLog\<close> whose exception, if any, is not handled.  The calls from
  inside the module pass a string, and for a string the function does not throw.
\<close>

definition stateOf :: "js_error \<times> state + state \<Rightarrow> state" where
  "stateOf r = (case r of Inr s' \<Rightarrow> s' | Inl (err, s') \<Rightarrow> s')"

definition logged :: "env \<Rightarrow> clock \<Rightarrow> state \<Rightarrow> message \<Rightarrow> string \<Rightarrow> state" where
  "logged E c s msg level = stateOf (addStrongSearchLog E c s msg level)"

subsection \<open>Progress bar and connection status\<close>

text \<open>
  A number of the script is an IEEE 754 double, kept as the real number that it
  stands for.  The product of two doubles is the double nearest to the exact product,
  a tie going to the even mantissa.  \<open>exponentOf x\<close> is the binary exponent
  \<open>\<lfloor>log\<^sub>2 x\<rfloor>\<close> of a positive \<open>x\<close>; the doubles around \<open>x\<close> are the multiples of
  \<open>ulp x\<close>, which leaves 53 bits to the mantissa and is \<open>2\<^sup>-\<^sup>1\<^sup>0\<^sup>7\<^sup>4\<close> for the
  subnormal numbers.  A product beyond the largest double is \<open>Infinity\<close> in the script
  and a large number here; both are shown as \<open>100\<close>.  A frame whose \<open>progress\<close> is no
  number is not modelled.
\<close>

definition pow2 :: "int \<Rightarrow> real" where
  "pow2 e = (if 0 \<le> e then 2 ^ nat e else 1 / 2 ^ nat (- e))"

definition exponentOf :: "real \<Rightarrow> int" where
  "exponentOf x = (if 1 \<le> x then bitlen \<lfloor>x\<rfloor> - 1 else - bitlen (\<lceil>1 / x\<rceil> - 1))"

definition ulp :: "real \<Rightarrow> real" where
  "ulp x = pow2 (max (exponentOf \<bar>x\<bar>) (- 1022) - 52)"

definition roundHalfEven :: "real \<Rightarrow> int" where
  "roundHalfEven x =
     (let n = \<lfloor>x\<rfloor>; d = x - of_int n
      in if d < 1 / 2 then n
         else if 1 / 2 < d then n + 1
         else if even n then n else n + 1)"

definition doubleOf :: "real \<Rightarrow> real" where
  "doubleOf x = (if x = 0 then 0 else of_int (roundHalfEven (x / ulp x)) * ulp x)"

text \<open>\<open>Math.round\<close> rounds to the nearest integer, a half towards \<open>+\<infinity>\<close>.\<close>

definition mathRound :: "real \<Rightarrow> int" where
  "mathRound x = \<lfloor>x + 1 / 2\<rfloor>"

definition updateStrongSearchProgressBar :: "real \<Rightarrow> string \<Rightarrow> state \<Rightarrow> state" where
  "updateStrongSearchProgressBar progress status s =
     (case strongSearchModalProgressBar s of
        None \<Rightarrow> s
      | Some bar \<Rightarrow>
          s\<lparr>strongSearchModalProgressBar :=
              Some (bar\<lparr>percent := max 0 (min 100 (mathRound (doubleOf (progress * 100)))),
                        title := (if status \<noteq> [] then Some status else title bar)\<rparr>)\<rparr>)"

definition updateStrongSearchConnectionStatus :: "string \<Rightarrow> state \<Rightarrow> state" where
  "updateStrongSearchConnectionStatus status s =
     (case strongSearchConnectionStatus s of
        None \<Rightarrow> s
      | Some _ \<Rightarrow>
          s\<lparr>strongSearchConnectionStatus :=
              Some (if status = ''connecting'' then StatusConnecting
                    else if status = ''connected'' then StatusConnected
                    else StatusDisconnected)\<rparr>)"

subsection \<open>Transport\<close>

text \<open>
  What the client does to the outside world, in order.  The answer of the collaborator
  is kept with the request, so that a trace says whether an acquisition succeeded.
\<close>

datatype id_response =
    IdNetworkError string
  | IdHttpError string
  | IdBadJson string
  | IdOk "string option"

datatype action =
    FetchClientId id_response
  | OpenSocket string
  | SendSearch string string
  | CloseSocket
  | FetchBatch string "string list"

text \<open>
  \<open>getStrongSearchClientId\<close>: the identifier (\<open>data.client_id\<close>, \<open>None\<close> when the
  answer has no such field), or the error, logged and thrown again.
\<close>

definition idErrorMessage :: "id_response \<Rightarrow> string" where
  "idErrorMessage r =
     (case r of
        IdNetworkError m \<Rightarrow> m
      | IdHttpError code \<Rightarrow> ''API request failed: '' @ code
      | IdBadJson m \<Rightarrow> m
      | IdOk _ \<Rightarrow> [])"

definition getStrongSearchClientId ::
  "env \<Rightarrow> clock \<Rightarrow> id_response \<Rightarrow> state \<Rightarrow> state \<times> (string + string option)" where
  "getStrongSearchClientId E c r s =
     (case r of
        IdOk cid \<Rightarrow> (s, Inr cid)
      | _ \<Rightarrow>
          (logged E c s (MString (''Cannot get client id: '' @ idErrorMessage r)) ''error'',
           Inl (idErrorMessage r)))"

text \<open>
  The outcome of \<open>new WebSocket(wsUrl)\<close> and of the handshake that follows: the
  constructor throws, the \<open>open\<close> event fires, or the \<open>error\<close> event does.
\<close>

datatype open_outcome = ConstructorThrows | SocketOpens | SocketFails

record network =
  idResponse :: id_response
  apiHost :: "string option"
  wsProtocol :: string
  openOutcome :: open_outcome

datatype connect_result = Resolved bool | Rejected string

text \<open>The handlers \<open>onclose\<close> and \<open>onerror\<close> that \<open>connectStrongSearchWebSocket\<close> installs.\<close>

definition onclose :: "env \<Rightarrow> clock \<Rightarrow> state \<Rightarrow> state" where
  "onclose E c s =
     (let s1 = updateStrongSearchConnectionStatus ''disconnected'' s;
          s2 = (if isStrongSearching s1
                then logged E c s1 (MString ''WebSocket connection closed unexpectedly'') ''error''
                else s1)
      in s2\<lparr>isStrongSearching := False, strongSearchSocket := None\<rparr>)"

definition onerror :: "env \<Rightarrow> clock \<Rightarrow> state \<Rightarrow> state" where
  "onerror E c s =
     (let s1 = updateStrongSearchConnectionStatus ''disconnected'' s;
          s2 = logged E c s1 (MString ''WebSocket connection error'') ''error''
      in s2\<lparr>isStrongSearching := False, strongSearchSocket := None\<rparr>)"

text \<open>
  \<open>connectStrongSearchWebSocket\<close>, with the two suspensions (the request for the
  identifier, the handshake) run to their outcome: no other event is interleaved.
  \<open>apiHost\<close> is the host of \<open>API_BASE_URL\<close>, \<open>None\<close> when \<open>new URL\<close> throws.  The promise
  that the function returns inside \<open>try\<close> is not awaited there, so its rejection is
  the rejection of the call.
\<close>

definition socketUrl :: "network \<Rightarrow> string \<Rightarrow> string option \<Rightarrow> string" where
  "socketUrl n host cid =
     wsProtocol n @ ''//'' @ host @ ''/ws/strong_search/''
       @ (case cid of Some i \<Rightarrow> i | None \<Rightarrow> ''undefined'')"

definition connectStrongSearchWebSocket ::
  "env \<Rightarrow> clock \<Rightarrow> network \<Rightarrow> state \<Rightarrow> connect_result \<times> state \<times> action list" where
  "connectStrongSearchWebSocket E c n s =
     (if strongSearchSocket s = Some OPEN then (Resolved True, s, [])
      else
        (case getStrongSearchClientId E c (idResponse n) s of
           (s1, Inl err) \<Rightarrow>
             (Resolved False, updateStrongSearchConnectionStatus ''disconnected'' s1,
              [FetchClientId (idResponse n)])
         | (s1, Inr cid) \<Rightarrow>
             (let s2 = updateStrongSearchConnectionStatus ''connecting''
                         (s1\<lparr>strongSearchClientId := cid\<rparr>)
              in case apiHost n of
                   None \<Rightarrow>
                     (Resolved False, updateStrongSearchConnectionStatus ''disconnected'' s2,
                      [FetchClientId (idResponse n)])
                 | Some host \<Rightarrow>
                     (let wsUrl = socketUrl n host cid
                      in case openOutcome n of
                           ConstructorThrows \<Rightarrow>
                             (Resolved False,
                              updateStrongSearchConnectionStatus ''disconnected'' s2,
                              [FetchClientId (idResponse n)])
                         | SocketOpens \<Rightarrow>
                             (Resolved True,
                              logged E c
                                (updateStrongSearchConnectionStatus ''connected''
                                   (s2\<lparr>strongSearchSocket := Some OPEN\<rparr>))
                                (MString ''WebSocket connected'') ''success'',
                              [FetchClientId (idResponse n), OpenSocket wsUrl])
                         | SocketFails \<Rightarrow>
                             (Rejected ''WebSocket connection failed'',
                              onerror E c (s2\<lparr>strongSearchSocket := Some CONNECTING\<rparr>),
                              [FetchClientId (idResponse n), OpenSocket wsUrl])))))"

text \<open>
  The state in which a call of \<open>connectStrongSearchWebSocket\<close> is suspended once
  \<open>new WebSocket\<close> has returned and the handshake is under way, with what the call has
  done so far; \<open>None\<close> when the call does not get there.  The functions of the module
  that run during the suspension find this state.
\<close>

definition connectSuspended ::
  "env \<Rightarrow> clock \<Rightarrow> network \<Rightarrow> state \<Rightarrow> (state \<times> action list) option" where
  "connectSuspended E c n s =
     (if strongSearchSocket s = Some OPEN then None
      else
        (case getStrongSearchClientId E c (idResponse n) s of
           (s1, Inl err) \<Rightarrow> None
         | (s1, Inr cid) \<Rightarrow>
             (case apiHost n of
                None \<Rightarrow> None
              | Some host \<Rightarrow>
                  if openOutcome n = ConstructorThrows then None
                  else Some ((updateStrongSearchConnectionStatus ''connecting''
                                (s1\<lparr>strongSearchClientId := cid\<rparr>))
                               \<lparr>strongSearchSocket := Some CONNECTING\<rparr>,
                             [FetchClientId (idResponse n), OpenSocket (socketUrl n host cid)]))))"

definition disconnectStrongSearchWebSocket :: "state \<Rightarrow> state \<times> action list" where
  "disconnectStrongSearchWebSocket s =
     (case strongSearchSocket s of
        None \<Rightarrow> (s, [])
      | Some _ \<Rightarrow>
          (updateStrongSearchConnectionStatus ''disconnected''
             (s\<lparr>strongSearchSocket := None, strongSearchClientId := None\<rparr>),
           [CloseSocket]))"

subsection \<open>Result display\<close>

text \<open>
  The \<open>result\<close> of a result frame.  \<open>answer\<close> is \<open>None\<close> when missing or empty;
  \<open>relevant_files\<close> is empty when missing; \<open>project_structure\<close> is \<open>None\<close> when it
  is no object, \<open>Some None\<close> when it has no \<open>text_tree\<close>.
\<close>

record search_result =
  answer :: "string option"
  relevant_files :: "string list"
  project_structure :: "string option option"
  execution_time :: real

text \<open>
  The answer of the batch-content collaborator: an exception inside the \<open>try\<close> (the
  request fails, or its body is no JSON), a status that is not ok, or the own
  properties of \<open>batchResult.contents || {}\<close>, values as strings.
\<close>

datatype batch_response =
    BatchException
  | BatchNotOk
  | BatchOk "(string \<times> string) list"

definition loadFailed :: string where
  "loadFailed = ''Error: cannot load content''"

definition networkFailed :: string where
  "networkFailed = ''Error: network error while loading content''"

definition noCodebase :: string where
  "noCodebase = ''Cannot load content (no codebase name or file list)''"

definition notLoaded :: string where
  "notLoaded = ''Cannot load content.''"

text \<open>
  \<open>files.forEach(file => fileContents[file] = placeholder)\<close> on the empty object: the
  assignment to \<open>__proto__\<close> of a string creates no property.
\<close>

definition fillContents :: "string list \<Rightarrow> string \<Rightarrow> (string \<times> string) list" where
  "fillContents files placeholder =
     map (\<lambda>f. (f, placeholder)) (filter (\<lambda>f. f \<noteq> ''__proto__'') files)"

text \<open>\<open>fileContents[file] || notLoaded\<close>, the read going through \<open>Object.prototype\<close>.\<close>

definition contentShown :: "(string \<times> string) list \<Rightarrow> string \<Rightarrow> shown" where
  "contentShown fileContents file =
     (case map_of fileContents file of
        Some content \<Rightarrow> if content \<noteq> [] then Text content else Text notLoaded
      | None \<Rightarrow>
          if file \<in> set objectPrototypeKeys then InheritedValue file else Text notLoaded)"

text \<open>
  The name of the code base as the templates print it, and the test
  \<open>currentStrongSearchCodebase\<close> of its truth (the empty name is falsy).
\<close>

definition codebaseText :: "state \<Rightarrow> string" where
  "codebaseText s =
     (case currentStrongSearchCodebase s of Some cb \<Rightarrow> cb | None \<Rightarrow> ''null'')"

definition codebaseSet :: "state \<Rightarrow> bool" where
  "codebaseSet s =
     (case currentStrongSearchCodebase s of Some cb \<Rightarrow> cb \<noteq> [] | None \<Rightarrow> False)"

text \<open>The block that fetches the contents: the contents and the request made.\<close>

definition fetchFileContents ::
  "batch_response \<Rightarrow> state \<Rightarrow> string list \<Rightarrow> (string \<times> string) list \<times> action list" where
  "fetchFileContents resp s files =
     (if files \<noteq> [] \<and> codebaseSet s then
        (case resp of
           BatchOk contents \<Rightarrow> contents
         | BatchNotOk \<Rightarrow> fillContents files loadFailed
         | BatchException \<Rightarrow> fillContents files networkFailed,
         [FetchBatch (codebaseText s) files])
      else (fillContents files noCodebase, []))"

definition displayStrongSearchResult ::
  "env \<Rightarrow> clock \<Rightarrow> batch_response \<Rightarrow> state \<Rightarrow> search_result option
     \<Rightarrow> state \<times> action list" where
  "displayStrongSearchResult E c resp s result =
     (case strongSearchModalResultContainer s of
        None \<Rightarrow> (s, [])
      | Some _ \<Rightarrow>
          (let cleared = s\<lparr>strongSearchModalResultContainer := Some ContainerEmpty\<rparr>;
               failed = (\<lambda>m. (logged E c cleared
                                   (MString (''Error while displaying the result: '' @ m))
                                   ''error'', []))
           in case result of
                None \<Rightarrow> failed ''result is undefined''
              | Some r \<Rightarrow>
                  (case (case answer r of None \<Rightarrow> Some None
                         | Some a \<Rightarrow> map_option Some (markedParse E a)) of
                     None \<Rightarrow> failed ''marked.parse''
                   | Some av \<Rightarrow>
                       (let files = relevant_files r;
                            (fileContents, acts) =
                               (if files = [] then ([], [])
                                else fetchFileContents resp s files);
                            view = \<lparr>answerView = av,
                                    structureView =
                                      (case project_structure r of
                                         None \<Rightarrow> NoStructureInfo
                                       | Some None \<Rightarrow> StructureWithoutTree
                                       | Some (Some tree) \<Rightarrow> StructureTree tree),
                                    fileViews =
                                      map (\<lambda>f. (f, contentShown fileContents f)) files,
                                    timeView = execution_time r\<rparr>
                        in (logged E c
                              (s\<lparr>strongSearchModalResultContainer :=
                                   Some (ContainerResult view)\<rparr>)
                              (MString ''Search finished, result displayed'') ''success'',
                            acts)))))"

subsection \<open>Dispatch of inbound frames\<close>

text \<open>
  A frame after \<open>JSON.parse\<close>.  In a log frame the level is the empty string when it is
  missing, and the message is \<open>None\<close> when it is missing or falsy.  The progress of a
  progress frame is a double, and its status is the empty string when it is missing.
  An unknown frame is kept as its \<open>JSON.stringify\<close> text.
\<close>

datatype frame =
    LogFrame string "message option"
  | ProgressFrame real string
  | ResultFrame "search_result option"
  | ErrorFrame message
  | UnknownFrame string

definition handleStrongSearchWebSocketMessage ::
  "env \<Rightarrow> clock \<Rightarrow> batch_response \<Rightarrow> state \<Rightarrow> frame
     \<Rightarrow> js_error \<times> state + state \<times> action list" where
  "handleStrongSearchWebSocketMessage E c resp s fr =
     (case fr of
        LogFrame level msg \<Rightarrow>
          (case addStrongSearchLog E c s
                  (case msg of Some m \<Rightarrow> m | None \<Rightarrow> MString []) level of
             Inl err \<Rightarrow> Inl err
           | Inr s' \<Rightarrow> Inr (s', []))
      | ProgressFrame progress status \<Rightarrow>
          Inr (updateStrongSearchProgressBar progress status s, [])
      | ResultFrame result \<Rightarrow>
          (case displayStrongSearchResult E c resp s result of
             (s', acts) \<Rightarrow> Inr (s'\<lparr>isStrongSearching := False\<rparr>, acts))
      | ErrorFrame m \<Rightarrow>
          (case addStrongSearchLog E c s m ''error'' of
             Inl err \<Rightarrow> Inl err
           | Inr s' \<Rightarrow> Inr (s'\<lparr>isStrongSearching := False\<rparr>, []))
      | UnknownFrame text \<Rightarrow>
          (case addStrongSearchLog E c s (MString (''Unknown message received: '' @ text))
                  ''warning'' of
             Inl err \<Rightarrow> Inl err
           | Inr s' \<Rightarrow> Inr (s', [])))"

text \<open>
  The handler \<open>onmessage\<close>, for data that \<open>JSON.parse\<close> accepts.  It does not await
  the dispatch: when the dispatch throws, the rejection is lost and the state is as
  the throw has left it.  For other data the handler logs an error (\<open>onBadMessage\<close>).
\<close>

definition onmessage ::
  "env \<Rightarrow> clock \<Rightarrow> batch_response \<Rightarrow> state \<Rightarrow> frame \<Rightarrow> state \<times> action list" where
  "onmessage E c resp s fr =
     (case handleStrongSearchWebSocketMessage E c resp s fr of
        Inl (err, s') \<Rightarrow> (s', [])
      | Inr r \<Rightarrow> r)"

definition onBadMessage :: "env \<Rightarrow> clock \<Rightarrow> state \<Rightarrow> state" where
  "onBadMessage E c s =
     logged E c s (MString ''Received a message that cannot be parsed'') ''error''"

subsection \<open>Start and stop\<close>

text \<open>The literal \<open>0.05\<close>: the double nearest to it.\<close>

definition fiveHundredths :: real where
  "fiveHundredths = 3602879701896397 / 72057594037927936"

text \<open>The \<open>catch\<close> block of \<open>startStrongSearch\<close>.\<close>

definition startFailed :: "env \<Rightarrow> clock \<Rightarrow> string \<Rightarrow> state \<Rightarrow> state" where
  "startFailed E c m s =
     (logged E c s (MString (''Failed to start the search: '' @ m)) ''error'')
       \<lparr>isStrongSearching := False\<rparr>"

definition startStrongSearch ::
  "env \<Rightarrow> clock \<Rightarrow> network \<Rightarrow> state \<Rightarrow> state \<times> action list" where
  "startStrongSearch E c n s =
     (if isStrongSearching s \<or> \<not> codebaseSet s then (s, [])
      else
        (case strongSearchModalQueryInput s of
           None \<Rightarrow> (s, [])
         | Some text \<Rightarrow>
             (let query = trim text
              in if query = []
                 then (logged E c s (MString ''Please enter a query'') ''warning'', [])
                 else
                   (let s1 = logged E c s (MString ''--------- new search ---------'') ''info'';
                        s2 = updateStrongSearchProgressBar 0 ''Preparing the search...'' s1;
                        s3 = logged E c s2
                               (MString (''Preparing strong search: '' @ [CHR 0x22] @ query
                                          @ [CHR 0x22]))
                               ''info'';
                        s4 = s3\<lparr>isStrongSearching := True\<rparr>
                    in case connectStrongSearchWebSocket E c n s4 of
                         (Rejected m, s5, acts) \<Rightarrow> (startFailed E c m s5, acts)
                       | (Resolved False, s5, acts) \<Rightarrow>
                           (startFailed E c ''WebSocket connection failed'' s5, acts)
                       | (Resolved True, s5, acts) \<Rightarrow>
                           if strongSearchSocket s5 = Some OPEN then
                             (updateStrongSearchProgressBar fiveHundredths ''Request sent...''
                                (logged E c s5 (MString ''Search request sent'') ''info''),
                              acts @ [SendSearch (codebaseText s5) query])
                           else
                             (startFailed E c
                                ''WebSocket is not connected, cannot send the request'' s5,
                              acts)))))"

definition stopStrongSearch :: "env \<Rightarrow> clock \<Rightarrow> state \<Rightarrow> state \<times> action list" where
  "stopStrongSearch E c s =
     (if \<not> isStrongSearching s then (s, [])
      else
        (let s1 = logged E c s (MString ''Trying to stop the search...'') ''warning'';
             (s2, acts) = disconnectStrongSearchWebSocket s1;
             s3 = s2\<lparr>isStrongSearching := False\<rparr>
         in (updateStrongSearchProgressBar 0 ''Search stopped'' s3, acts)))"

subsection \<open>Opening and closing the modal\<close>

definition resetStrongSearchUI :: "state \<Rightarrow> state" where
  "resetStrongSearchUI s =
     (if \<not> strongSearchModal s then s
      else
        (let s1 = s\<lparr>strongSearchModalQueryInput :=
                       map_option (\<lambda>_. []) (strongSearchModalQueryInput s),
                     strongSearchModalLogContainer :=
                       map_option (\<lambda>_. []) (strongSearchModalLogContainer s)\<rparr>;
             s2 = updateStrongSearchProgressBar 0 [] s1;
             s3 = updateStrongSearchConnectionStatus ''disconnected'' s2
         in s3\<lparr>toolCallMap := Map.empty, toolCallsByName := Map.empty,
               toolCallsByNameProto := None\<rparr>))"

text \<open>
  \<open>openModal\<close> connects at once; a rejection is logged by its \<open>catch\<close> handler.
\<close>

definition openModal ::
  "env \<Rightarrow> clock \<Rightarrow> network \<Rightarrow> string option \<Rightarrow> state \<Rightarrow> state \<times> action list" where
  "openModal E c n codebaseName s =
     (if \<not> strongSearchModal s then (s, [])
      else
        (case connectStrongSearchWebSocket E c n
                (resetStrongSearchUI (s\<lparr>currentStrongSearchCodebase := codebaseName\<rparr>)) of
           (Rejected m, s1, acts) \<Rightarrow>
             (logged E c s1 (MString ''WebSocket connection failed, please retry'') ''error'', acts)
         | (Resolved _, s1, acts) \<Rightarrow> (s1, acts)))"

definition closeModal :: "state \<Rightarrow> state \<times> action list" where
  "closeModal s =
     (case disconnectStrongSearchWebSocket s of
        (s1, acts) \<Rightarrow>
          (s1\<lparr>currentStrongSearchCodebase := None, isStrongSearching := False\<rparr>, acts))"

subsection \<open>Executions\<close>

text \<open>
  The calls of the public interface and the events of the socket, each with the answers
  of the outside world that it consumes.  An execution is a list of them, run in order.
  A message is delivered only while the socket is open.  The handlers of a socket stay
  installed after the module has let go of it, so its \<open>close\<close> and \<open>error\<close> events run
  them in any state.
\<close>

datatype event =
    OpenModal network "string option"
  | CloseModal
  | Submit network
  | Stop
  | TypeQuery string
  | Message batch_response frame
  | BadMessage
  | SocketClosed
  | SocketError

fun step :: "env \<Rightarrow> clock \<Rightarrow> state \<Rightarrow> event \<Rightarrow> state \<times> action list" where
  "step E c s (OpenModal n name) = openModal E c n name s"
| "step E c s CloseModal = closeModal s"
| "step E c s (Submit n) = startStrongSearch E c n s"
| "step E c s Stop = stopStrongSearch E c s"
| "step E c s (TypeQuery q) =
     (s\<lparr>strongSearchModalQueryInput := map_option (\<lambda>_. q) (strongSearchModalQueryInput s)\<rparr>, [])"
| "step E c s (Message resp fr) =
     (if strongSearchSocket s = Some OPEN then onmessage E c resp s fr else (s, []))"
| "step E c s BadMessage =
     (if strongSearchSocket s = Some OPEN then onBadMessage E c s else s, [])"
| "step E c s SocketClosed = (onclose E c s, [])"
| "step E c s SocketError = (onerror E c s, [])"

fun run :: "env \<Rightarrow> state \<Rightarrow> (clock \<times> event) list \<Rightarrow> state \<times> action list" where
  "run E s [] = (s, [])"
| "run E s ((c, ev) # rest) =
     (case step E c s ev of
        (s1, acts) \<Rightarrow> (case run E s1 rest of (s2, acts') \<Rightarrow> (s2, acts @ acts')))"

subsection \<open>Notions used by the properties\<close>

text \<open>A sequence of calls of \<open>addStrongSearchLog\<close>, none of whose exceptions is handled.\<close>

type_synonym log_call = "clock \<times> message \<times> string"

fun logAll :: "env \<Rightarrow> state \<Rightarrow> log_call list \<Rightarrow> state" where
  "logAll E s [] = s"
| "logAll E s ((c, msg, level) # rest) = logAll E (logged E c s msg level) rest"

text \<open>The size of the log store and the bodies of its entries, oldest first.\<close>

definition logSize :: "state \<Rightarrow> nat" where
  "logSize s = (case strongSearchModalLogContainer s of None \<Rightarrow> 0 | Some kids \<Rightarrow> length kids)"

definition logBodies :: "state \<Rightarrow> formatted list" where
  "logBodies s =
     (case strongSearchModalLogContainer s of
        None \<Rightarrow> []
      | Some kids \<Rightarrow> map (\<lambda>a. body (heap s ! a)) kids)"

definition logBounded :: "state \<Rightarrow> bool" where
  "logBounded s = (logSize s \<le> maxLogEntries)"

text \<open>A character that starts no white space and is no opening brace.\<close>

definition plainStart :: "char \<Rightarrow> bool" where
  "plainStart ch = (ch \<noteq> CHR ''{'' \<and> ch \<notin> set (map hd whiteSpace))"

text \<open>
  The entry that a plain text gets under a level that has no tool call.  Further down,
  \<open>appendedTo s ens s'\<close> says that the log of \<open>s'\<close> is the log of \<open>s\<close> with the
  entries \<open>ens\<close> appended in this order, its oldest entries removed beyond
  \<open>maxLogEntries\<close>.
\<close>

definition textEntry :: "env \<Rightarrow> clock \<Rightarrow> string \<Rightarrow> string \<Rightarrow> entry" where
  "textEntry E c level str =
     \<lparr>className = level, iconClass = iconFor False level, stamp = localeTime c,
      body = Escaped (escapeHtml E str), outputContainer = NoContainer\<rparr>"

text \<open>The entry that \<open>addStrongSearchLog\<close> builds for a message.\<close>

definition renderedEntry :: "env \<Rightarrow> clock \<Rightarrow> message \<Rightarrow> string \<Rightarrow> entry" where
  "renderedEntry E c msg level =
     (case formatMessage E c msg level of
        (formattedMessage, isToolCall, reg) \<Rightarrow>
          \<lparr>className = level, iconClass = iconFor isToolCall level, stamp = localeTime c,
           body = formattedMessage,
           outputContainer =
             (case formattedMessage of ToolCallBanner _ _ \<Rightarrow> Hidden | _ \<Rightarrow> NoContainer)\<rparr>)"

definition appendedTo :: "state \<Rightarrow> entry list \<Rightarrow> state \<Rightarrow> bool" where
  "appendedTo s ens s' =
     (heap s' = heap s @ ens
      \<and> strongSearchModalLogContainer s'
          = map_option
              (\<lambda>kids. drop (length kids + length ens - maxLogEntries)
                         (kids @ [length (heap s) ..< length (heap s) + length ens]))
              (strongSearchModalLogContainer s))"

text \<open>
  The messages that have a text to show: a string under \<open>agent_thinking\<close>, a string
  that holds a tool call, a string or a value of another type with a text left after
  escaping, and an object without a tool name.
\<close>

definition hasText :: "env \<Rightarrow> message \<Rightarrow> string \<Rightarrow> bool" where
  "hasText E msg level =
     (case msg of
        MString str \<Rightarrow>
          level = ''agent_thinking''
          \<or> (case parseToolCall E str of
                Some p \<Rightarrow> tool_name p \<noteq> None \<or> escapeHtml E str \<noteq> []
              | None \<Rightarrow> escapeHtml E str \<noteq> [])
      | MOther str \<Rightarrow> escapeHtml E str \<noteq> []
      | MObject m \<Rightarrow> tool_name m = None)"

text \<open>
  The assignment \<open>toolCallsByName[n] = entry\<close> throws: the prototype has been replaced,
  the object has no property \<open>n\<close> of its own, and the chain of the element has a setter
  for \<open>n\<close> that refuses the receiver.
\<close>

definition assignmentThrows :: "env \<Rightarrow> state \<Rightarrow> string \<Rightarrow> bool" where
  "assignmentThrows E s n =
     (n \<noteq> ''__proto__'' \<and> toolCallsByName s n = None \<and> toolCallsByNameProto s \<noteq> None
      \<and> elementAssign E n = AssignThrows)"

text \<open>A plain text logged at level \<open>info\<close>.\<close>

definition infoCall :: "clock \<times> string \<Rightarrow> log_call" where
  "infoCall x = (fst x, MString (snd x), ''info'')"

text \<open>
  The display percent as the specification writes it,
  \<open>round(clamp(fraction, 0, 1) * 100)\<close>, in exact arithmetic; and the same formula with
  the product of the doubles.
\<close>

definition display_percent_spec :: "real \<Rightarrow> int" where
  "display_percent_spec fraction = mathRound (max 0 (min 1 fraction) * 100)"

definition display_percent_double :: "real \<Rightarrow> int" where
  "display_percent_double fraction = mathRound (doubleOf (max 0 (min 1 fraction) * 100))"

text \<open>
  A trace in which every opening of the socket comes directly after an acquisition that
  gave a client identifier, and goes to the address of that identifier.
\<close>

definition endsWith :: "string \<Rightarrow> string \<Rightarrow> bool" where
  "endsWith url i = (drop (length url - length i) url = i)"

fun opensAfterId :: "action option \<Rightarrow> action list \<Rightarrow> bool" where
  "opensAfterId prev [] = True"
| "opensAfterId prev (a # rest) =
     ((case a of
         OpenSocket url \<Rightarrow>
           (case prev of
              Some (FetchClientId (IdOk (Some i))) \<Rightarrow> endsWith url i
            | _ \<Rightarrow> False)
       | _ \<Rightarrow> True)
      \<and> opensAfterId (Some a) rest)"

definition idBeforeOpen :: "action list \<Rightarrow> bool" where
  "idBeforeOpen trace = opensAfterId None trace"

text \<open>The collaborator has given a client identifier.\<close>

definition idAcquired :: "id_response \<Rightarrow> bool" where
  "idAcquired r = (case r of IdOk (Some i) \<Rightarrow> True | _ \<Rightarrow> False)"

text \<open>
  The sockets that a trace has created and that the module has not closed.
\<close>

definition isOpenSocket :: "action \<Rightarrow> bool" where
  "isOpenSocket a = (case a of OpenSocket url \<Rightarrow> True | _ \<Rightarrow> False)"

definition liveConnections :: "action list \<Rightarrow> nat" where
  "liveConnections trace =
     length (filter isOpenSocket trace) - length (filter (\<lambda>a. a = CloseSocket) trace)"

subsection \<open>Concrete inputs\<close>

definition exampleEnv :: env where
  "exampleEnv =
     \<lparr>escapeHtml = (\<lambda>text. text), jsonParse = (\<lambda>text. None),
      elementProperty = (\<lambda>n. False), elementAssign = (\<lambda>n. AssignStores),
      markedParse = (\<lambda>text. Some text)\<rparr>"

text \<open>
  An environment in which the element has the accessor \<open>className\<close>: read or written on
  an object that is no element, it throws.
\<close>

definition elementEnv :: env where
  "elementEnv =
     exampleEnv\<lparr>elementProperty := (\<lambda>n. n = ''className''),
       elementAssign := (\<lambda>n. if n = ''className'' then AssignThrows else AssignStores)\<rparr>"

definition exampleClock :: clock where
  "exampleClock = \<lparr>dateNow = ''1700000000000'', localeTime = ''10:00:00''\<rparr>"

text \<open>The state after \<open>init\<close> with every element found and a code base chosen: idle.\<close>

definition idleState :: state where
  "idleState =
     \<lparr>currentStrongSearchCodebase = Some ''repo1'', strongSearchSocket = None,
      strongSearchClientId = None, isStrongSearching = False,
      toolCallMap = Map.empty, toolCallsByName = Map.empty, toolCallsByNameProto = None,
      heap = [], strongSearchModal = True, strongSearchModalLogContainer = Some [],
      strongSearchModalProgressBar = Some \<lparr>percent = 0, title = None\<rparr>,
      strongSearchModalResultContainer = Some ContainerEmpty,
      strongSearchModalQueryInput = Some ''auth flow'',
      strongSearchConnectionStatus = Some StatusDisconnected\<rparr>"

text \<open>The state during a search: connected, the request sent.\<close>

definition searchingState :: state where
  "searchingState =
     idleState\<lparr>strongSearchSocket := Some OPEN, strongSearchClientId := Some ''abc123'',
       isStrongSearching := True,
       strongSearchModalProgressBar := Some \<lparr>percent = 5, title = Some ''Request sent...''\<rparr>,
       strongSearchConnectionStatus := Some StatusConnected\<rparr>"

text \<open>
  The state while the connection that \<open>openModal\<close> has started is in its handshake.
\<close>

definition handshakeState :: state where
  "handshakeState =
     idleState\<lparr>strongSearchSocket := Some CONNECTING, strongSearchClientId := Some ''abc123'',
       strongSearchConnectionStatus := Some StatusConnecting\<rparr>"

definition badNetwork :: network where
  "badNetwork =
     \<lparr>idResponse = IdHttpError ''500'', apiHost = Some ''localhost:30089'',
      wsProtocol = ''ws:'', openOutcome = SocketOpens\<rparr>"

definition exampleResult :: search_result where
  "exampleResult =
     \<lparr>answer = Some ''X'', relevant_files = [''a.py'', ''b.py''], project_structure = None,
      execution_time = 123 / 100\<rparr>"

definition goodNetwork :: network where
  "goodNetwork =
     \<lparr>idResponse = IdOk (Some ''abc123''), apiHost = Some ''localhost:30089'',
      wsProtocol = ''ws:'', openOutcome = SocketOpens\<rparr>"

text \<open>A second answer of the collaborator, with another identifier.\<close>

definition secondNetwork :: network where
  "secondNetwork = goodNetwork\<lparr>idResponse := IdOk (Some ''def456'')\<rparr>"

text \<open>The collaborator answers with status 200 and a body without \<open>client_id\<close>.\<close>

definition noIdNetwork :: network where
  "noIdNetwork = goodNetwork\<lparr>idResponse := IdOk None\<rparr>"

text \<open>The address of the interface cannot be parsed.\<close>

definition noHostNetwork :: network where
  "noHostNetwork = goodNetwork\<lparr>apiHost := None\<rparr>"

text \<open>The handshake fails.\<close>

definition failingNetwork :: network where
  "failingNetwork = goodNetwork\<lparr>openOutcome := SocketFails\<rparr>"

definition toolMessage :: "string \<Rightarrow> string \<Rightarrow> string option \<Rightarrow> tool_message" where
  "toolMessage n ts out =
     \<lparr>tool_name = Some n, timestamp = Some ts, parameters = None, output_preview = out\<rparr>"

definition grepCall :: tool_message where
  "grepCall = toolMessage ''grep'' ''1000'' None"

definition grepCallLater :: tool_message where
  "grepCallLater = toolMessage ''grep'' ''2000'' None"

definition grepOutput :: tool_message where
  "grepOutput = toolMessage ''grep'' ''1000'' (Some ''no matches'')"

definition grepOutputLate :: tool_message where
  "grepOutputLate = toolMessage ''grep'' ''3000'' (Some ''two matches'')"

definition afterTwoGrepCalls :: state where
  "afterTwoGrepCalls =
     logAll exampleEnv idleState
       [(exampleClock, MObject grepCall, ''tool_call''),
        (exampleClock, MObject grepCallLater, ''tool_call'')]"

text \<open>
  A call of the tool \<open>a-b\<close> at the time \<open>c\<close>, then a call of the tool \<open>a\<close> at the time
  \<open>x\<close>; and an output of the tool \<open>a\<close> with the time \<open>b-c\<close>, a pair of name and time
  under which no call was made.
\<close>

definition afterCollidingCalls :: state where
  "afterCollidingCalls =
     logAll exampleEnv idleState
       [(exampleClock, MObject (toolMessage ''a-b'' ''c'' None), ''tool_call''),
        (exampleClock, MObject (toolMessage ''a'' ''x'' None), ''tool_call'')]"

definition collidingOutput :: tool_message where
  "collidingOutput = toolMessage ''a'' ''b-c'' (Some ''output of a'')"

text \<open>The state after a call of a tool named \<open>__proto__\<close>.\<close>

definition afterProtoCall :: state where
  "afterProtoCall =
     logAll elementEnv idleState
       [(exampleClock, MObject (toolMessage ''__proto__'' ''1000'' None), ''tool_call'')]"

text \<open>The doubles nearest to \<open>0.015\<close>, \<open>0.145\<close> and \<open>-0.2\<close>.\<close>

definition fifteenThousandths :: real where
  "fifteenThousandths = 1080863910568919 / 72057594037927936"

definition hundredFortyFiveThousandths :: real where
  "hundredFortyFiveThousandths = 5224175567749775 / 36028797018963968"

definition minusTwoTenths :: real where
  "minusTwoTenths = - 3602879701896397 / 18014398509481984"

section \<open>Facts about the log\<close>

lemma evictOldest_drop: "evictOldest xs = drop (length xs - maxLogEntries) xs"
proof (induction xs rule: evictOldest.induct)
  case (1 children)
  show ?case
  proof (cases "length children > maxLogEntries")
    case True
    then have ne: "children \<noteq> []" by auto
    have "evictOldest children = evictOldest (tl children)"
      using True by (subst evictOldest.simps) simp
    also have "\<dots> = drop (length (tl children) - maxLogEntries) (tl children)"
      using 1 True by simp
    also have "\<dots> = drop (length children - maxLogEntries) children"
      using True ne by (cases children) (auto simp: Suc_diff_le drop_Cons')
    finally show ?thesis .
  next
    case False
    then show ?thesis by (subst evictOldest.simps) simp
  qed
qed

lemma length_evictOldest: "length (evictOldest xs) = min (length xs) maxLogEntries"
  by (simp add: evictOldest_drop)

lemma drop_drop_append:
  "d \<le> length X \<Longrightarrow> drop a (drop d X @ Y) = drop (a + d) (X @ Y)"
  by simp

lemma evictOldest_append: "evictOldest (evictOldest xs @ ys) = evictOldest (xs @ ys)"
proof -
  define d where "d = length xs - maxLogEntries"
  have dl: "d \<le> length xs" by (simp add: d_def)
  have e: "length (drop d xs @ ys) - maxLogEntries + d = length (xs @ ys) - maxLogEntries"
    by (auto simp: d_def)
  have "drop (length (drop d xs @ ys) - maxLogEntries) (drop d xs @ ys)
      = drop (length (drop d xs @ ys) - maxLogEntries + d) (xs @ ys)"
    by (rule drop_drop_append [OF dl])
  then have "drop (length (drop d xs @ ys) - maxLogEntries) (drop d xs @ ys)
      = drop (length (xs @ ys) - maxLogEntries) (xs @ ys)"
    unfolding e .
  then show ?thesis unfolding evictOldest_drop d_def .
qed

lemma matchToolOutput_not_object:
  "(\<And>m. msg \<noteq> MObject m) \<Longrightarrow> matchToolOutput E c s msg level = None"
  by (cases msg) (auto simp: matchToolOutput_def)

lemma stateOf_simps [simp]: "stateOf (Inr s) = s" "stateOf (Inl (err, s)) = s"
  by (simp_all add: stateOf_def)

lemma container_attachOutput [simp]:
  "strongSearchModalLogContainer (attachOutput e p s) = strongSearchModalLogContainer s"
  by (simp add: attachOutput_def)

lemma length_heap_attachOutput [simp]: "length (heap (attachOutput e p s)) = length (heap s)"
  by (simp add: attachOutput_def)

text \<open>
  What \<open>registerToolCall\<close> leaves of a property of the state that the correlation
  tables have no part in.
\<close>

lemma registerToolCall_preserves:
  assumes "\<And>f s. P (s\<lparr>toolCallMap := f\<rparr>) = P s"
    and "\<And>f s. P (s\<lparr>toolCallsByName := f\<rparr>) = P s"
    and "\<And>f s. P (s\<lparr>toolCallsByNameProto := f\<rparr>) = P s"
  shows "P (stateOf (registerToolCall E n t e s)) = P s"
  by (simp add: registerToolCall_def storeByName_def Let_def assms
        split: assign_outcome.splits)

lemma container_registerToolCall [simp]:
  "strongSearchModalLogContainer (stateOf (registerToolCall E n t e s))
     = strongSearchModalLogContainer s"
  by (rule registerToolCall_preserves) simp_all

lemma heap_registerToolCall [simp]: "heap (stateOf (registerToolCall E n t e s)) = heap s"
  by (rule registerToolCall_preserves) simp_all

lemma container_appendEntry:
  "strongSearchModalLogContainer (appendEntry en s)
     = map_option (\<lambda>kids. evictOldest (kids @ [length (heap s)])) (strongSearchModalLogContainer s)"
  by (simp add: appendEntry_def split: option.splits)

lemma heap_appendEntry:
  "heap (appendEntry en s)
     = (if strongSearchModalLogContainer s = None then heap s else heap s @ [en])"
  by (simp add: appendEntry_def split: option.splits)

text \<open>
  The results of \<open>addStrongSearchLog\<close>: the state as it was, an output attached, a
  value that is no element found under the name, an entry appended, a call registered
  (and an entry appended), or the assignment to \<open>toolCallsByName\<close> thrown.
\<close>

lemma addStrongSearchLog_cases:
  obtains
    (unchanged) "addStrongSearchLog E c s msg level = Inr s"
  | (attached) e p where "addStrongSearchLog E c s msg level = Inr (attachOutput e p s)"
  | (notElement) "addStrongSearchLog E c s msg level = Inl (TypeError, s)"
  | (appended) en where "addStrongSearchLog E c s msg level = Inr (appendEntry en s)"
  | (registered) n t where
      "addStrongSearchLog E c s msg level
         = Inr (stateOf (registerToolCall E n t (length (heap s)) s))"
  | (registeredAppended) n t en where
      "addStrongSearchLog E c s msg level
         = Inr (appendEntry en (stateOf (registerToolCall E n t (length (heap s)) s)))"
  | (assignThrown) n t en where
      "addStrongSearchLog E c s msg level
         = Inl (TypeError,
                (stateOf (registerToolCall E n t (length (heap s)) s))
                  \<lparr>heap := heap s @ [en]\<rparr>)"
proof (cases "strongSearchModalLogContainer s = None")
  case True
  then have "addStrongSearchLog E c s msg level = Inr s" by (simp add: addStrongSearchLog_def)
  then show ?thesis by (rule unchanged)
next
  case False
  show ?thesis
  proof (cases "matchToolOutput E c s msg level")
    case (Some r)
    then have "(\<exists>e p. r = Inr (attachOutput e p s)) \<or> r = Inl (TypeError, s)"
      by (auto simp: matchToolOutput_def Let_def
               split: message.splits option.splits if_splits lookup.splits)
    moreover have "addStrongSearchLog E c s msg level = r"
      using False Some by (auto simp: addStrongSearchLog_def)
    ultimately show ?thesis using attached notElement by blast
  next
    case None
    obtain f b reg where fm: "formatMessage E c msg level = (f, b, reg)"
      by (cases "formatMessage E c msg level")
    show ?thesis
    proof (cases reg)
      case None2: None
      have "addStrongSearchLog E c s msg level = Inr s
          \<or> (\<exists>en. addStrongSearchLog E c s msg level = Inr (appendEntry en s))"
        using False None fm None2 by (auto simp: addStrongSearchLog_def Let_def)
      then show ?thesis using unchanged appended by blast
    next
      case (Some nt)
      obtain n t where nt: "nt = (n, t)" by (cases nt)
      let ?r = "registerToolCall E n t (length (heap s)) s"
      have h: "heap (stateOf ?r) = heap s" by simp
      show ?thesis
      proof (cases ?r)
        case (Inl a)
        obtain err s1 where a: "a = (err, s1)" by (cases a)
        have err: "err = TypeError" by (cases err) simp
        have s1: "stateOf ?r = s1" "heap s1 = heap s" using Inl a h by simp_all
        have "addStrongSearchLog E c s msg level = Inr s1
          \<or> (\<exists>en. addStrongSearchLog E c s msg level = Inr (appendEntry en s1))
          \<or> (\<exists>en. addStrongSearchLog E c s msg level
                     = Inl (TypeError, s1\<lparr>heap := heap s @ [en]\<rparr>))"
          using False None fm Some nt Inl a err s1(2)
          by (auto simp: addStrongSearchLog_def Let_def)
        then show ?thesis
          using registered [where n = n and t = t] registeredAppended [where n = n and t = t]
            assignThrown [where n = n and t = t]
          unfolding s1(1) by blast
      next
        case (Inr s1)
        have s1: "stateOf ?r = s1" using Inr by simp
        have "addStrongSearchLog E c s msg level = Inr s1
          \<or> (\<exists>en. addStrongSearchLog E c s msg level = Inr (appendEntry en s1))"
          using False None fm Some nt Inr by (auto simp: addStrongSearchLog_def Let_def)
        then show ?thesis
          using registered [where n = n and t = t] registeredAppended [where n = n and t = t]
          unfolding s1 by blast
      qed
    qed
  qed
qed

lemma addStrongSearchLog_container_stateOf:
  "strongSearchModalLogContainer (stateOf (addStrongSearchLog E c s msg level))
     = strongSearchModalLogContainer s
 \<or> strongSearchModalLogContainer (stateOf (addStrongSearchLog E c s msg level))
     = map_option (\<lambda>kids. evictOldest (kids @ [length (heap s)]))
         (strongSearchModalLogContainer s)"
  by (rule addStrongSearchLog_cases
        [where E = E and c = c and s = s and msg = msg and level = level])
     (simp_all add: container_appendEntry)

text \<open>What a call does to the container: nothing, or one entry appended and the oldest evicted.\<close>

lemma addStrongSearchLog_container:
  assumes "addStrongSearchLog E c s msg level = Inr s'"
    and "strongSearchModalLogContainer s = Some kids"
  shows "strongSearchModalLogContainer s' = Some kids
       \<or> strongSearchModalLogContainer s' = Some (evictOldest (kids @ [length (heap s)]))"
  using addStrongSearchLog_container_stateOf [of E c s msg level] assms by auto

lemma addStrongSearchLog_no_container:
  "strongSearchModalLogContainer s = None \<Longrightarrow> addStrongSearchLog E c s msg level = Inr s"
  by (simp add: addStrongSearchLog_def)

lemma logSize_logged: "logSize (logged E c s msg level) \<le> max (logSize s) maxLogEntries"
  using addStrongSearchLog_container_stateOf [of E c s msg level]
  by (cases "strongSearchModalLogContainer s")
     (auto simp: logged_def logSize_def length_evictOldest)

lemma logBounded_logged: "logBounded s \<Longrightarrow> logBounded (logged E c s msg level)"
  using logSize_logged [of E c s msg level] by (simp add: logBounded_def)

text \<open>A property of the state that the log has no part in is left as it is.\<close>

lemma logged_preserves:
  assumes "\<And>f s. P (s\<lparr>toolCallMap := f\<rparr>) = P s"
    and "\<And>f s. P (s\<lparr>toolCallsByName := f\<rparr>) = P s"
    and "\<And>f s. P (s\<lparr>toolCallsByNameProto := f\<rparr>) = P s"
    and "\<And>f s. P (s\<lparr>heap := f\<rparr>) = P s"
    and "\<And>f s. P (s\<lparr>strongSearchModalLogContainer := f\<rparr>) = P s"
  shows "P (logged E c s msg level) = P s"
proof -
  have r: "\<And>n t e s. P (stateOf (registerToolCall E n t e s)) = P s"
    by (rule registerToolCall_preserves) (simp_all add: assms)
  have a: "\<And>e p s. P (attachOutput e p s) = P s"
    by (simp add: attachOutput_def assms)
  have ap: "\<And>en s. P (appendEntry en s) = P s"
  proof -
    fix en s
    have "P (s\<lparr>heap := heap s @ [en],
               strongSearchModalLogContainer := Some (evictOldest (the (strongSearchModalLogContainer s) @ [length (heap s)]))\<rparr>)
        = P (s\<lparr>heap := heap s @ [en]\<rparr>)"
      by (rule assms(5))
    then show "P (appendEntry en s) = P s"
      by (auto simp: appendEntry_def assms split: option.splits)
  qed
  show ?thesis
    by (rule addStrongSearchLog_cases
          [where E = E and c = c and s = s and msg = msg and level = level])
       (simp_all add: logged_def r a ap assms)
qed

lemma container_progress [simp]:
  "strongSearchModalLogContainer (updateStrongSearchProgressBar p st s)
     = strongSearchModalLogContainer s"
  by (simp add: updateStrongSearchProgressBar_def split: option.splits)

lemma container_status [simp]:
  "strongSearchModalLogContainer (updateStrongSearchConnectionStatus st s)
     = strongSearchModalLogContainer s"
  by (simp add: updateStrongSearchConnectionStatus_def split: option.splits)

lemma logSize_progress [simp]: "logSize (updateStrongSearchProgressBar p st s) = logSize s"
  by (simp add: updateStrongSearchProgressBar_def logSize_def split: option.splits)

lemma logSize_status [simp]: "logSize (updateStrongSearchConnectionStatus st s) = logSize s"
  by (simp add: updateStrongSearchConnectionStatus_def logSize_def split: option.splits)

lemma logBounded_progress [simp]:
  "logBounded (updateStrongSearchProgressBar p st s) = logBounded s"
  by (simp add: logBounded_def)

lemma logBounded_status [simp]:
  "logBounded (updateStrongSearchConnectionStatus st s) = logBounded s"
  by (simp add: logBounded_def)

lemma logBounded_fields [simp]:
  "logBounded (s\<lparr>isStrongSearching := b\<rparr>) = logBounded s"
  "logBounded (s\<lparr>strongSearchSocket := so\<rparr>) = logBounded s"
  "logBounded (s\<lparr>strongSearchClientId := ci\<rparr>) = logBounded s"
  "logBounded (s\<lparr>currentStrongSearchCodebase := cb\<rparr>) = logBounded s"
  "logBounded (s\<lparr>strongSearchModalResultContainer := rc\<rparr>) = logBounded s"
  "logBounded (s\<lparr>strongSearchModalQueryInput := qi\<rparr>) = logBounded s"
  by (simp_all add: logBounded_def logSize_def)

lemma logBounded_onclose: "logBounded s \<Longrightarrow> logBounded (onclose E c s)"
  by (simp add: onclose_def Let_def logBounded_logged)

lemma logBounded_onerror: "logBounded s \<Longrightarrow> logBounded (onerror E c s)"
  by (simp add: onerror_def Let_def logBounded_logged)

lemma logBounded_getId:
  "logBounded s \<Longrightarrow> logBounded (fst (getStrongSearchClientId E c r s))"
  by (cases r) (simp_all add: getStrongSearchClientId_def logBounded_logged)

lemma logBounded_connect:
  assumes "logBounded s"
  shows "logBounded (fst (snd (connectStrongSearchWebSocket E c n s)))"
proof (cases "strongSearchSocket s = Some OPEN")
  case True
  then show ?thesis using assms by (simp add: connectStrongSearchWebSocket_def)
next
  case False
  obtain s1 r where g: "getStrongSearchClientId E c (idResponse n) s = (s1, r)"
    by (cases "getStrongSearchClientId E c (idResponse n) s")
  have b1: "logBounded s1" using logBounded_getId [OF assms, of E c "idResponse n"] g by simp
  show ?thesis
    using False g b1
    by (auto simp: connectStrongSearchWebSocket_def Let_def logBounded_logged logBounded_onerror
             split: sum.splits option.splits open_outcome.splits)
qed

lemma logBounded_disconnect:
  "logBounded s \<Longrightarrow> logBounded (fst (disconnectStrongSearchWebSocket s))"
  by (simp add: disconnectStrongSearchWebSocket_def split: option.splits)

lemma logBounded_startFailed: "logBounded s \<Longrightarrow> logBounded (startFailed E c m s)"
  by (simp add: startFailed_def logBounded_logged)

lemma logBounded_start:
  assumes "logBounded s"
  shows "logBounded (fst (startStrongSearch E c n s))"
proof -
  have conn: "\<And>s4 r s5 acts. logBounded s4 \<Longrightarrow>
        connectStrongSearchWebSocket E c n s4 = (r, s5, acts) \<Longrightarrow> logBounded s5"
    using logBounded_connect by (metis fst_conv snd_conv)
  show ?thesis
    using assms
    by (auto simp: startStrongSearch_def Let_def logBounded_logged logBounded_startFailed
             split: option.splits prod.splits connect_result.splits bool.splits
             intro!: logBounded_logged logBounded_startFailed
             dest!: conn [rotated])
qed

lemma logBounded_stop:
  assumes "logBounded s"
  shows "logBounded (fst (stopStrongSearch E c s))"
proof (cases "isStrongSearching s")
  case False
  then show ?thesis using assms by (simp add: stopStrongSearch_def)
next
  case True
  let ?s1 = "logged E c s (MString ''Trying to stop the search...'') ''warning''"
  have "logBounded (fst (disconnectStrongSearchWebSocket ?s1))"
    by (rule logBounded_disconnect) (rule logBounded_logged [OF assms])
  then show ?thesis
    using True by (auto simp: stopStrongSearch_def Let_def split: prod.splits)
qed

lemma logBounded_reset: "logBounded (resetStrongSearchUI s) \<or> \<not> strongSearchModal s"
  by (simp add: resetStrongSearchUI_def Let_def logBounded_def logSize_def split: option.splits)

lemma logBounded_display:
  assumes "logBounded s"
  shows "logBounded (fst (displayStrongSearchResult E c resp s result))"
  using assms
  by (auto simp: displayStrongSearchResult_def Let_def split: option.splits prod.splits
           intro!: logBounded_logged)


lemma onmessage_log:
  "onmessage E c resp s (LogFrame level msg)
     = (logged E c s (case msg of Some m \<Rightarrow> m | None \<Rightarrow> MString []) level, [])"
  by (auto simp: onmessage_def handleStrongSearchWebSocketMessage_def logged_def stateOf_def
           split: sum.splits)

lemma onmessage_error:
  "fst (onmessage E c resp s (ErrorFrame m)) = logged E c s m ''error''
 \<or> fst (onmessage E c resp s (ErrorFrame m))
      = (logged E c s m ''error'')\<lparr>isStrongSearching := False\<rparr>"
  by (auto simp: onmessage_def handleStrongSearchWebSocketMessage_def logged_def stateOf_def
           split: sum.splits)

lemma onmessage_unknown:
  "onmessage E c resp s (UnknownFrame u)
     = (logged E c s (MString (''Unknown message received: '' @ u)) ''warning'', [])"
  by (auto simp: onmessage_def handleStrongSearchWebSocketMessage_def logged_def stateOf_def
           split: sum.splits)

lemma logBounded_onmessage:
  assumes "logBounded s"
  shows "logBounded (fst (onmessage E c resp s fr))"
proof (cases fr)
  case (LogFrame level msg)
  then show ?thesis using assms by (simp add: onmessage_log logBounded_logged)
next
  case (ProgressFrame p st)
  then show ?thesis using assms
    by (simp add: onmessage_def handleStrongSearchWebSocketMessage_def)
next
  case (ResultFrame r)
  then show ?thesis
    using logBounded_display [OF assms, of E c resp r]
    by (auto simp: onmessage_def handleStrongSearchWebSocketMessage_def split: prod.splits)
next
  case (ErrorFrame m)
  then show ?thesis
    using onmessage_error [of E c resp s m] logBounded_logged [OF assms, of E c m "''error''"]
    by auto
next
  case (UnknownFrame u)
  then show ?thesis using assms by (simp add: onmessage_unknown logBounded_logged)
qed

lemma logBounded_openModal:
  assumes "logBounded s"
  shows "logBounded (fst (openModal E c n name s))"
proof (cases "strongSearchModal s")
  case False
  then show ?thesis using assms by (simp add: openModal_def)
next
  case True
  let ?s0 = "resetStrongSearchUI (s\<lparr>currentStrongSearchCodebase := name\<rparr>)"
  have "logBounded ?s0" using logBounded_reset [of "s\<lparr>currentStrongSearchCodebase := name\<rparr>"] True by simp
  from logBounded_connect [OF this, of E c n] show ?thesis
    using True
    by (auto simp: openModal_def split: prod.splits connect_result.splits intro!: logBounded_logged)
qed

lemma logBounded_closeModal:
  "logBounded s \<Longrightarrow> logBounded (fst (closeModal s))"
  using logBounded_disconnect [of s] by (auto simp: closeModal_def split: prod.splits)

lemma logBounded_step: "logBounded s \<Longrightarrow> logBounded (fst (step E c s ev))"
  by (cases ev)
     (simp_all add: logBounded_openModal logBounded_closeModal logBounded_start logBounded_stop
        logBounded_onmessage logBounded_onclose logBounded_onerror logBounded_logged
        onBadMessage_def)

lemma logBounded_run: "logBounded s \<Longrightarrow> logBounded (fst (run E s evs))"
proof (induction evs arbitrary: s)
  case Nil
  then show ?case by simp
next
  case (Cons x evs)
  obtain c ev where x: "x = (c, ev)" by (cases x)
  obtain s1 a1 where st: "step E c s ev = (s1, a1)" by (cases "step E c s ev")
  have "logBounded s1" using logBounded_step [OF Cons.prems, of E c ev] st by simp
  from Cons.IH [OF this] show ?case
    using x st by (auto split: prod.splits)
qed

text \<open>Plain texts appended one after the other.\<close>

section \<open>Session fields are left alone by the log\<close>

lemma session_attachOutput [simp]:
  "strongSearchSocket (attachOutput e p s) = strongSearchSocket s"
  "isStrongSearching (attachOutput e p s) = isStrongSearching s"
  "strongSearchClientId (attachOutput e p s) = strongSearchClientId s"
  "currentStrongSearchCodebase (attachOutput e p s) = currentStrongSearchCodebase s"
  "strongSearchModalProgressBar (attachOutput e p s) = strongSearchModalProgressBar s"
  "strongSearchModalResultContainer (attachOutput e p s) = strongSearchModalResultContainer s"
  "strongSearchModalQueryInput (attachOutput e p s) = strongSearchModalQueryInput s"
  "strongSearchConnectionStatus (attachOutput e p s) = strongSearchConnectionStatus s"
  "strongSearchModal (attachOutput e p s) = strongSearchModal s"
  by (simp_all add: attachOutput_def)

lemma session_appendEntry [simp]:
  "strongSearchSocket (appendEntry en s) = strongSearchSocket s"
  "isStrongSearching (appendEntry en s) = isStrongSearching s"
  "strongSearchClientId (appendEntry en s) = strongSearchClientId s"
  "currentStrongSearchCodebase (appendEntry en s) = currentStrongSearchCodebase s"
  "strongSearchModalProgressBar (appendEntry en s) = strongSearchModalProgressBar s"
  "strongSearchModalResultContainer (appendEntry en s) = strongSearchModalResultContainer s"
  "strongSearchModalQueryInput (appendEntry en s) = strongSearchModalQueryInput s"
  "strongSearchConnectionStatus (appendEntry en s) = strongSearchConnectionStatus s"
  "strongSearchModal (appendEntry en s) = strongSearchModal s"
  by (simp_all add: appendEntry_def split: option.splits)

lemma session_logged [simp]:
  "strongSearchSocket (logged E c s msg level) = strongSearchSocket s"
  "isStrongSearching (logged E c s msg level) = isStrongSearching s"
  "strongSearchClientId (logged E c s msg level) = strongSearchClientId s"
  "currentStrongSearchCodebase (logged E c s msg level) = currentStrongSearchCodebase s"
  "strongSearchModalProgressBar (logged E c s msg level) = strongSearchModalProgressBar s"
  "strongSearchModalResultContainer (logged E c s msg level) = strongSearchModalResultContainer s"
  "strongSearchModalQueryInput (logged E c s msg level) = strongSearchModalQueryInput s"
  "strongSearchConnectionStatus (logged E c s msg level) = strongSearchConnectionStatus s"
  "strongSearchModal (logged E c s msg level) = strongSearchModal s"
  by (rule logged_preserves; simp)+

lemma session_status [simp]:
  "strongSearchSocket (updateStrongSearchConnectionStatus st s) = strongSearchSocket s"
  "isStrongSearching (updateStrongSearchConnectionStatus st s) = isStrongSearching s"
  "strongSearchClientId (updateStrongSearchConnectionStatus st s) = strongSearchClientId s"
  "currentStrongSearchCodebase (updateStrongSearchConnectionStatus st s) = currentStrongSearchCodebase s"
  "strongSearchModalProgressBar (updateStrongSearchConnectionStatus st s) = strongSearchModalProgressBar s"
  "strongSearchModalQueryInput (updateStrongSearchConnectionStatus st s) = strongSearchModalQueryInput s"
  by (simp_all add: updateStrongSearchConnectionStatus_def split: option.splits)

lemma session_progress [simp]:
  "strongSearchSocket (updateStrongSearchProgressBar f st s) = strongSearchSocket s"
  "isStrongSearching (updateStrongSearchProgressBar f st s) = isStrongSearching s"
  "strongSearchClientId (updateStrongSearchProgressBar f st s) = strongSearchClientId s"
  "currentStrongSearchCodebase (updateStrongSearchProgressBar f st s) = currentStrongSearchCodebase s"
  "strongSearchModalQueryInput (updateStrongSearchProgressBar f st s) = strongSearchModalQueryInput s"
  by (simp_all add: updateStrongSearchProgressBar_def split: option.splits)

lemma percent_progress:
  "map_option percent (strongSearchModalProgressBar (updateStrongSearchProgressBar f st s))
     = map_option (\<lambda>_. max 0 (min 100 (mathRound (doubleOf (f * 100)))))
         (strongSearchModalProgressBar s)"
  by (simp add: updateStrongSearchProgressBar_def split: option.splits)

lemma heap_progress [simp]: "heap (updateStrongSearchProgressBar f st s) = heap s"
  by (simp add: updateStrongSearchProgressBar_def split: option.splits)

lemma heap_status [simp]: "heap (updateStrongSearchConnectionStatus st s) = heap s"
  by (simp add: updateStrongSearchConnectionStatus_def split: option.splits)

section \<open>Plain texts\<close>

lemma whiteSpace_nonempty: "[] \<notin> set whiteSpace"
  by (simp add: whiteSpace_def)

lemma spaceAtStart_match:
  assumes "spaceAtStart ws str \<noteq> 0"
  shows "take (spaceAtStart ws str) str \<in> set ws"
proof (cases "filter (startsWith str) ws")
  case Nil
  then show ?thesis using assms by (simp add: spaceAtStart_def)
next
  case (Cons w rest)
  then have "w \<in> set (filter (startsWith str) ws)" by simp
  then have "w \<in> set ws" "take (length w) str = w" by (simp_all add: startsWith_def)
  then show ?thesis using Cons by (simp add: spaceAtStart_def)
qed

lemma spaceAtStart_le: "spaceAtStart ws str \<le> length str"
proof (cases "spaceAtStart ws str = 0")
  case True
  then show ?thesis by simp
next
  case False
  have "take (spaceAtStart ws str) str \<in> set ws" by (rule spaceAtStart_match [OF False])
  show ?thesis
  proof (cases "filter (startsWith str) ws")
    case Nil
    then show ?thesis by (simp add: spaceAtStart_def)
  next
    case (Cons w rest)
    then have "w \<in> set (filter (startsWith str) ws)" by simp
    then have "take (length w) str = w" by (simp add: startsWith_def)
    then have "length (take (length w) str) = length w" by simp
    then have "length w \<le> length str" by (auto simp: min_def split: if_splits)
    then show ?thesis using Cons by (simp add: spaceAtStart_def)
  qed
qed

lemma spaceAtStart_plain:
  assumes "ch \<notin> set (map hd ws)" and "[] \<notin> set ws"
  shows "spaceAtStart ws (ch # rest) = 0"
proof (rule ccontr)
  assume n: "spaceAtStart ws (ch # rest) \<noteq> 0"
  let ?k = "spaceAtStart ws (ch # rest)"
  have m: "take ?k (ch # rest) \<in> set ws" by (rule spaceAtStart_match [OF n])
  obtain j where j: "?k = Suc j" using n by (cases ?k) auto
  have "take ?k (ch # rest) = ch # take j rest" by (simp add: j)
  then have "hd (take ?k (ch # rest)) = ch" by simp
  then have "ch \<in> set (map hd ws)" using m by (metis image_eqI list.set_map)
  then show False using assms(1) by simp
qed

lemma stripStart_plain:
  assumes "ch \<notin> set (map hd ws)" and "[] \<notin> set ws"
  shows "stripStart ws (ch # rest) = ch # rest"
  by (subst stripStart.simps) (simp add: spaceAtStart_plain [OF assms])

lemma stripStart_keeps_last:
  assumes "ch \<notin> set (map last ws)" and "[] \<notin> set ws"
  shows "\<exists>zs. stripStart ws (ys @ [ch]) = zs @ [ch]"
proof (induction "length ys" arbitrary: ys rule: less_induct)
  case less
  let ?str = "ys @ [ch]"
  let ?k = "spaceAtStart ws ?str"
  show ?case
  proof (cases "?k = 0")
    case True
    then have "stripStart ws ?str = ?str" by (subst stripStart.simps) simp
    then show ?thesis by blast
  next
    case False
    have m: "take ?k ?str \<in> set ws" by (rule spaceAtStart_match [OF False])
    have le: "?k \<le> length ?str" by (rule spaceAtStart_le)
    have "?k \<noteq> length ?str"
    proof
      assume "?k = length ?str"
      then have "take ?k ?str = ?str" by simp
      then have "ys @ [ch] \<in> set ws" using m by simp
      then have "last (ys @ [ch]) \<in> set (map last ws)" by (metis image_eqI list.set_map)
      then show False using assms(1) by simp
    qed
    then have k: "?k \<le> length ys" using le by simp
    then have d: "drop ?k ?str = drop ?k ys @ [ch]" by simp
    have "length (drop ?k ys) < length ys" using False k by simp
    from less [OF this] obtain zs where "stripStart ws (drop ?k ys @ [ch]) = zs @ [ch]" by blast
    moreover have "stripStart ws ?str = stripStart ws (drop ?k ?str)"
      using False by (subst stripStart.simps) simp
    ultimately show ?thesis unfolding d by simp
  qed
qed

lemma heads_of_reversed: "[] \<notin> set ws \<Longrightarrow> map last (map rev ws) = map hd ws"
  by (induction ws) (auto simp: last_rev)

lemma trim_plain:
  assumes "plainStart ch"
  shows "\<exists>zs. trim (ch # rest) = ch # zs"
proof -
  have h: "ch \<notin> set (map hd whiteSpace)" using assms by (simp add: plainStart_def)
  have s1: "stripStart whiteSpace (ch # rest) = ch # rest"
    by (rule stripStart_plain [OF h whiteSpace_nonempty])
  have ne: "[] \<notin> set (map rev whiteSpace)" using whiteSpace_nonempty by auto
  have l: "ch \<notin> set (map last (map rev whiteSpace))"
    using h heads_of_reversed [OF whiteSpace_nonempty] by simp
  from stripStart_keeps_last [OF l ne, of "rev rest"]
  obtain zs where "stripStart (map rev whiteSpace) (rev rest @ [ch]) = zs @ [ch]" by blast
  then have "trim (ch # rest) = ch # rev zs" by (simp add: trim_def s1)
  then show ?thesis by blast
qed

text \<open>
  A text that starts with a character that is neither white space nor a brace does not
  look like a tool call.
\<close>

lemma parseToolCall_plain: "plainStart ch \<Longrightarrow> parseToolCall E (ch # rest) = None"
proof -
  assume p: "plainStart ch"
  from trim_plain [OF p, of rest] obtain zs where "trim (ch # rest) = ch # zs" by blast
  moreover have "ch \<noteq> CHR ''{''" using p by (simp add: plainStart_def)
  ultimately show ?thesis
    by (simp add: parseToolCall_def looksLikeToolCall_def startsWith_def)
qed

lemma plainStart_letters [simp]:
  "plainStart CHR ''-''" "plainStart CHR ''P''" "plainStart CHR ''W''" "plainStart CHR ''S''"
  "plainStart CHR ''C''" "plainStart CHR ''F''" "plainStart CHR ''T''" "plainStart CHR ''R''"
  "plainStart CHR ''U''" "plainStart CHR ''a''"
  by (simp_all add: plainStart_def whiteSpace_def)

lemma logged_text:
  assumes "parseToolCall E str = None" and "escapeHtml E str \<noteq> []"
    and "level \<noteq> ''agent_thinking''"
  shows "logged E c s (MString str) level = appendEntry (textEntry E c level str) s"
proof (cases "strongSearchModalLogContainer s = None")
  case True
  then show ?thesis by (simp add: logged_def addStrongSearchLog_def appendEntry_def)
next
  case False
  then show ?thesis
    using assms
    by (auto simp: logged_def addStrongSearchLog_def matchToolOutput_def formatMessage_def
          textEntry_def Let_def)
qed

lemma trim_examples:
  "trim ''auth flow'' = ''auth flow''"
  "trim [CHR 0xC2, CHR 0xA0, CHR '' '', CHR 0xE3, CHR 0x80, CHR 0x80] = []"
  "trim ([CHR 0xE2, CHR 0x80, CHR 0x83] @ ''q'' @ [CHR 0xEF, CHR 0xBB, CHR 0xBF, CHR 0x0A]) = ''q''"
  by (simp_all add: trim_def stripStart.simps spaceAtStart_def startsWith_def whiteSpace_def)

section \<open>Texts appended one after the other\<close>

lemma logged_info:
  assumes "parseToolCall E str = None" and "escapeHtml E str \<noteq> []"
  shows "logged E c s (MString str) ''info''
       = appendEntry \<lparr>className = ''info'', iconClass = ''fa-info-circle'',
                 stamp = localeTime c, body = Escaped (escapeHtml E str),
                 outputContainer = NoContainer\<rparr> s"
  using logged_text [OF assms, of "''info''" c s] by (simp add: textEntry_def iconFor_def)

lemma drop_evict_step:
  fixes kids :: "nat list"
  assumes Y: "Y = [Suc h ..< Suc h + n]"
  shows "drop (length (drop (Suc (length kids) - m) (kids @ [h])) + n - m)
           (drop (Suc (length kids) - m) (kids @ [h]) @ Y)
       = drop (length kids + Suc n - m) (kids @ h # Y)"
proof -
  define X where "X = kids @ [h]"
  define d where "d = Suc (length kids) - m"
  have dX: "d \<le> length X" by (simp add: d_def X_def)
  have lX: "length X = Suc (length kids)" by (simp add: X_def)
  have "drop (length (drop d X) + n - m) (drop d X @ Y)
      = drop (length (drop d X) + n - m + d) (X @ Y)"
    by (rule drop_drop_append [OF dX])
  moreover have "length (drop d X) + n - m + d = length kids + Suc n - m"
    using lX by (auto simp: d_def)
  moreover have "X @ Y = kids @ h # Y" by (simp add: X_def)
  ultimately show ?thesis by (simp add: X_def d_def)
qed

lemma upt_head: "[h ..< h + Suc n] = h # [Suc h ..< Suc h + n]"
  by (simp add: upt_rec)

lemma logAll_info:
  assumes "strongSearchModalLogContainer s = Some kids"
    and "\<forall>x \<in> set xs. parseToolCall E (snd x) = None \<and> escapeHtml E (snd x) \<noteq> []"
    and "length kids \<le> maxLogEntries"
  shows "strongSearchModalLogContainer (logAll E s (map infoCall xs))
           = Some (drop (length kids + length xs - maxLogEntries)
                     (kids @ [length (heap s) ..< length (heap s) + length xs]))
       \<and> heap (logAll E s (map infoCall xs))
           = heap s @ map (\<lambda>x. \<lparr>className = ''info'', iconClass = ''fa-info-circle'',
                 stamp = localeTime (fst x), body = Escaped (escapeHtml E (snd x)),
                 outputContainer = NoContainer\<rparr>) xs"
  using assms
proof (induction xs arbitrary: s kids)
  case Nil
  then show ?case by simp
next
  case (Cons x xs)
  let ?en = "\<lparr>className = ''info'', iconClass = ''fa-info-circle'',
                 stamp = localeTime (fst x), body = Escaped (escapeHtml E (snd x)),
                 outputContainer = NoContainer\<rparr>"
  let ?h = "length (heap s)"
  let ?s1 = "appendEntry ?en s"
  have px: "parseToolCall E (snd x) = None" "escapeHtml E (snd x) \<noteq> []"
    using Cons.prems(2) by simp_all
  have lg: "logged E (fst x) s (MString (snd x)) ''info'' = ?s1"
    by (rule logged_info [OF px])
  have k1: "strongSearchModalLogContainer ?s1
              = Some (drop (Suc (length kids) - maxLogEntries) (kids @ [?h]))"
    using container_appendEntry [of ?en s] Cons.prems(1) by (simp add: evictOldest_drop)
  have h1: "heap ?s1 = heap s @ [?en]"
    using Cons.prems(1) by (simp add: appendEntry_def)
  have rest: "\<forall>x \<in> set xs. parseToolCall E (snd x) = None \<and> escapeHtml E (snd x) \<noteq> []"
    using Cons.prems(2) by simp
  have b1: "length (drop (Suc (length kids) - maxLogEntries) (kids @ [?h])) \<le> maxLogEntries"
    by (simp add: maxLogEntries_def)
  note IH = Cons.IH [OF k1 rest b1]
  have step: "logAll E s (map infoCall (x # xs)) = logAll E ?s1 (map infoCall xs)"
    using lg by (simp add: infoCall_def)
  have lh: "length (heap ?s1) = Suc ?h" by (simp add: h1)
  define Y where "Y = [Suc ?h ..< Suc ?h + length xs]"
  define kids1 where "kids1 = drop (Suc (length kids) - maxLogEntries) (kids @ [?h])"
  have IHc: "strongSearchModalLogContainer (logAll E ?s1 (map infoCall xs))
           = Some (drop (length kids1 + length xs - maxLogEntries) (kids1 @ Y))"
    using IH unfolding Y_def kids1_def lh by blast
  have ev: "drop (length kids1 + length xs - maxLogEntries) (kids1 @ Y)
          = drop (length kids + Suc (length xs) - maxLogEntries) (kids @ ?h # Y)"
    unfolding kids1_def by (rule drop_evict_step) (simp add: Y_def)
  have hY: "?h # Y = [?h ..< ?h + length (x # xs)]"
    unfolding Y_def using upt_head [of ?h "length xs"] by simp
  have c: "strongSearchModalLogContainer (logAll E s (map infoCall (x # xs)))
         = Some (drop (length kids + length (x # xs) - maxLogEntries)
                   (kids @ [?h ..< ?h + length (x # xs)]))"
    unfolding step IHc ev hY [symmetric] by simp
  have hp: "heap (logAll E s (map infoCall (x # xs))) = heap s @ map (\<lambda>x. \<lparr>className = ''info'', iconClass = ''fa-info-circle'',
                 stamp = localeTime (fst x), body = Escaped (escapeHtml E (snd x)),
                 outputContainer = NoContainer\<rparr>) (x # xs)"
    unfolding step using IH by (simp add: h1)
  show ?case using c hp by blast
qed

lemma nth_append_upt:
  "map (\<lambda>a. f ((A @ B) ! a)) [length A + k ..< length A + length B] = map f (drop k B)"
proof (rule nth_equalityI)
  show "length (map (\<lambda>a. f ((A @ B) ! a)) [length A + k ..< length A + length B])
      = length (map f (drop k B))" by simp
next
  fix i assume "i < length (map (\<lambda>a. f ((A @ B) ! a)) [length A + k ..< length A + length B])"
  then have i: "i < length B - k" by simp
  then show "map (\<lambda>a. f ((A @ B) ! a)) [length A + k ..< length A + length B] ! i
           = map f (drop k B) ! i"
    by (simp add: nth_append add.commute)
qed

lemma logAll_info_fresh:
  assumes k: "strongSearchModalLogContainer s = Some []"
    and p: "\<forall>x \<in> set xs. parseToolCall E (snd x) = None \<and> escapeHtml E (snd x) \<noteq> []"
  shows "logBodies (logAll E s (map infoCall xs))
           = map (\<lambda>x. Escaped (escapeHtml E (snd x))) (drop (length xs - maxLogEntries) xs)"
proof -
  let ?en = "\<lambda>x. \<lparr>className = ''info'', iconClass = ''fa-info-circle'',
                 stamp = localeTime (fst x), body = Escaped (escapeHtml E (snd x)),
                 outputContainer = NoContainer\<rparr>"
  let ?h = "length (heap s)"
  let ?d = "length xs - maxLogEntries"
  from logAll_info [OF k p] have
    c: "strongSearchModalLogContainer (logAll E s (map infoCall xs))
          = Some (drop ?d [?h ..< ?h + length xs])"
    and h: "heap (logAll E s (map infoCall xs)) = heap s @ map ?en xs"
    by simp_all
  have d: "drop ?d [?h ..< ?h + length xs] = [?h + ?d ..< ?h + length (map ?en xs)]"
    by (simp add: drop_upt)
  have "logBodies (logAll E s (map infoCall xs))
      = map (\<lambda>a. body ((heap s @ map ?en xs) ! a)) [?h + ?d ..< ?h + length (map ?en xs)]"
    unfolding logBodies_def c h d by simp
  also have "\<dots> = map body (drop ?d (map ?en xs))"
    by (rule nth_append_upt)
  also have "\<dots> = map (\<lambda>x. Escaped (escapeHtml E (snd x))) (drop ?d xs)"
    by (simp add: drop_map)
  finally show ?thesis .
qed

lemma logSize_logAll_info_fresh:
  assumes k: "strongSearchModalLogContainer s = Some []"
    and p: "\<forall>x \<in> set xs. parseToolCall E (snd x) = None \<and> escapeHtml E (snd x) \<noteq> []"
  shows "logSize (logAll E s (map infoCall xs)) = min (length xs) maxLogEntries"
  using logAll_info [OF k p] by (simp add: logSize_def)
section \<open>The log store is bounded and first-in first-out\<close>

text \<open>
  Claim C3.  After any mutation the log store holds at most 200 entries: a store within
  the bound stays within it over every execution.  A call of \<open>addStrongSearchLog\<close>
  leaves the store as it is or appends one entry and removes entries from the front,
  oldest first, so that what is left is the newest part of the old entries followed by
  the new one, in their order, 200 of them when there were more.  After 250 texts logged
  into an empty store, the store holds exactly 200 entries: the first 50 are gone and
  the 51st is the oldest one left.
\<close>

theorem log_store_capacity_fifo:
  "(logBounded s \<longrightarrow> logBounded (fst (run E s evs)))
 \<and> (strongSearchModalLogContainer s = Some kids \<and> addStrongSearchLog E c s msg level = Inr s'
      \<longrightarrow> strongSearchModalLogContainer s' = Some kids
        \<or> strongSearchModalLogContainer s'
             = Some (drop (Suc (length kids) - 200) (kids @ [length (heap s)])))
 \<and> (strongSearchModalLogContainer s = Some [] \<and> length xs = 250
      \<and> (\<forall>x \<in> set xs. parseToolCall E (snd x) = None \<and> escapeHtml E (snd x) \<noteq> [])
      \<longrightarrow> logSize (logAll E s (map infoCall xs)) = 200
        \<and> logBodies (logAll E s (map infoCall xs))
             = map (\<lambda>x. Escaped (escapeHtml E (snd x))) (drop 50 xs))"
proof (intro conjI impI)
  assume "logBounded s"
  then show "logBounded (fst (run E s evs))" by (rule logBounded_run)
next
  assume a: "strongSearchModalLogContainer s = Some kids \<and> addStrongSearchLog E c s msg level = Inr s'"
  from addStrongSearchLog_container [of E c s msg level s' kids] a
  show "strongSearchModalLogContainer s' = Some kids
        \<or> strongSearchModalLogContainer s'
             = Some (drop (Suc (length kids) - 200) (kids @ [length (heap s)]))"
    by (simp add: evictOldest_drop maxLogEntries_def)
next
  assume a: "strongSearchModalLogContainer s = Some [] \<and> length xs = 250
      \<and> (\<forall>x \<in> set xs. parseToolCall E (snd x) = None \<and> escapeHtml E (snd x) \<noteq> [])"
  then show "logSize (logAll E s (map infoCall xs)) = 200"
    using logSize_logAll_info_fresh [of s xs E] by (simp add: maxLogEntries_def)
next
  assume a: "strongSearchModalLogContainer s = Some [] \<and> length xs = 250
      \<and> (\<forall>x \<in> set xs. parseToolCall E (snd x) = None \<and> escapeHtml E (snd x) \<noteq> [])"
  then show "logBodies (logAll E s (map infoCall xs))
             = map (\<lambda>x. Escaped (escapeHtml E (snd x))) (drop 50 xs)"
    using logAll_info_fresh [of s xs E] by (simp add: maxLogEntries_def)
qed

lemma exampleEnv_simps [simp]:
  "escapeHtml exampleEnv = (\<lambda>text. text)" "parseToolCall exampleEnv = (\<lambda>text. None)"
  "elementProperty exampleEnv = (\<lambda>n. False)" "markedParse exampleEnv = (\<lambda>text. Some text)"
  "elementAssign exampleEnv = (\<lambda>n. AssignStores)"
  by (auto simp: exampleEnv_def parseToolCall_def)

theorem log_store_capacity_fifo_witness:
  "logBounded idleState
 \<and> logBounded (fst (run exampleEnv idleState [(exampleClock, Submit goodNetwork)]))
 \<and> strongSearchModalLogContainer idleState = Some []
 \<and> addStrongSearchLog exampleEnv exampleClock idleState (MString ''hello'') ''info''
      = Inr (appendEntry \<lparr>className = ''info'', iconClass = ''fa-info-circle'',
                 stamp = ''10:00:00'', body = Escaped ''hello'',
                 outputContainer = NoContainer\<rparr> idleState)
 \<and> strongSearchModalLogContainer (appendEntry \<lparr>className = ''info'', iconClass = ''fa-info-circle'',
                 stamp = ''10:00:00'', body = Escaped ''hello'',
                 outputContainer = NoContainer\<rparr> idleState) = Some [0]
 \<and> length (replicate 250 (exampleClock, ''line'')) = 250
 \<and> logSize (logAll exampleEnv idleState (map infoCall (replicate 250 (exampleClock, ''line'')))) = 200
 \<and> logBodies (logAll exampleEnv idleState (map infoCall (replicate 250 (exampleClock, ''line''))))
      = replicate 200 (Escaped ''line'')"
proof -
  have b: "logBounded idleState"
    by (simp add: logBounded_def logSize_def idleState_def maxLogEntries_def)
  have k: "strongSearchModalLogContainer idleState = Some []"
    by (simp add: idleState_def)
  have a: "addStrongSearchLog exampleEnv exampleClock idleState (MString ''hello'') ''info''
      = Inr (appendEntry \<lparr>className = ''info'', iconClass = ''fa-info-circle'',
                 stamp = ''10:00:00'', body = Escaped ''hello'',
                 outputContainer = NoContainer\<rparr> idleState)"
    by (simp add: addStrongSearchLog_def matchToolOutput_def formatMessage_def iconFor_def
          idleState_def exampleClock_def)
  show ?thesis
    using b k a
      log_store_capacity_fifo [of idleState exampleEnv "[(exampleClock, Submit goodNetwork)]"
        "[]" exampleClock "MString ''hello''" "''info''"
        "appendEntry \<lparr>className = ''info'', iconClass = ''fa-info-circle'',
                 stamp = ''10:00:00'', body = Escaped ''hello'',
                 outputContainer = NoContainer\<rparr> idleState"
        "replicate 250 (exampleClock, ''line'')"]
    by (simp add: idleState_def appendEntry_def evictOldest_drop maxLogEntries_def)
qed

section \<open>Facts about doubles\<close>

lemma doubleOf_zero [simp]: "doubleOf 0 = 0"
  by (simp add: doubleOf_def)

lemma mathRound_zero [simp]: "mathRound 0 = 0"
  by (simp add: mathRound_def)

section \<open>Stopping a search\<close>

text \<open>
  Claim C9.  When \<open>stopStrongSearch\<close> is called during a search over an existing
  socket, the socket is closed and let go of, the searching flag is cleared, and the
  progress bar shows \<open>0\<close>.
\<close>

theorem stop_while_searching:
  assumes "isStrongSearching s" and "strongSearchSocket s = Some sock"
  shows "snd (stopStrongSearch E c s) = [CloseSocket]
       \<and> strongSearchSocket (fst (stopStrongSearch E c s)) = None
       \<and> \<not> isStrongSearching (fst (stopStrongSearch E c s))
       \<and> map_option percent (strongSearchModalProgressBar (fst (stopStrongSearch E c s)))
           = map_option (\<lambda>_. 0) (strongSearchModalProgressBar s)"
  using assms
  by (simp add: stopStrongSearch_def Let_def disconnectStrongSearchWebSocket_def percent_progress
        option.map_comp comp_def)

theorem stop_while_searching_witness:
  "isStrongSearching searchingState
 \<and> strongSearchSocket searchingState = Some OPEN
 \<and> snd (stopStrongSearch exampleEnv exampleClock searchingState) = [CloseSocket]
 \<and> strongSearchSocket (fst (stopStrongSearch exampleEnv exampleClock searchingState)) = None
 \<and> \<not> isStrongSearching (fst (stopStrongSearch exampleEnv exampleClock searchingState))
 \<and> map_option percent
      (strongSearchModalProgressBar (fst (stopStrongSearch exampleEnv exampleClock searchingState)))
      = Some 0"
  using stop_while_searching [of searchingState OPEN exampleEnv exampleClock]
  by (simp add: searchingState_def idleState_def)


lemmas example_defs =
  idleState_def exampleClock_def grepCall_def grepCallLater_def grepOutput_def
  grepOutputLate_def goodNetwork_def toolMessage_def

lemmas log_defs =
  logged_def addStrongSearchLog_def matchToolOutput_def formatMessage_def bannerOf_def
  registerToolCall_def storeByName_def appendEntry_def attachOutput_def evictOldest_drop
  maxLogEntries_def generateToolCallId_def iconFor_def lookupByName_def objectPrototypeKeys_def
  noOutput_def Let_def

section \<open>Outputs without a call\<close>

text \<open>
  Claim C2.  In the idle state no tool call is stored, so neither lookup finds one for
  the output of \<open>grep\<close>; the call of \<open>addStrongSearchLog\<close> returns the state it was
  given, and so does the dispatch of the frame: the log store is as empty as before.
\<close>

theorem unmatched_tool_output_dropped:
  "toolCallMap idleState (generateToolCallId ''grep'' ''1000'') = None
 \<and> lookupByName exampleEnv idleState ''grep'' = Absent
 \<and> addStrongSearchLog exampleEnv exampleClock idleState (MObject grepOutput) ''tool_output''
      = Inr idleState
 \<and> onmessage exampleEnv exampleClock BatchException idleState
      (LogFrame ''tool_output'' (Some (MObject grepOutput))) = (idleState, [])
 \<and> logSize idleState = 0"
  by (simp add: onmessage_def handleStrongSearchWebSocketMessage_def logSize_def
        example_defs log_defs)

section \<open>The result frame\<close>

lemma contentShown_present:
  "map_of contents f = Some content \<Longrightarrow> content \<noteq> [] \<Longrightarrow> contentShown contents f = Text content"
  by (simp add: contentShown_def)

lemma contentShown_missing:
  "map_of contents f = None \<or> map_of contents f = Some [] \<Longrightarrow> f \<notin> set objectPrototypeKeys
   \<Longrightarrow> contentShown contents f = Text notLoaded"
  by (auto simp: contentShown_def)

lemma map_of_fillContents:
  "f \<in> set files \<Longrightarrow> f \<noteq> ''__proto__'' \<Longrightarrow> map_of (fillContents files ph) f = Some ph"
  by (induction files) (auto simp: fillContents_def)

lemma contentShown_filled:
  "f \<in> set files \<Longrightarrow> f \<noteq> ''__proto__'' \<Longrightarrow> ph \<noteq> []
   \<Longrightarrow> contentShown (fillContents files ph) f = Text ph"
  by (simp add: contentShown_def map_of_fillContents)

lemma placeholders_nonempty [simp]: "loadFailed \<noteq> []" "networkFailed \<noteq> []" "noCodebase \<noteq> []"
  by (simp_all add: loadFailed_def networkFailed_def noCodebase_def)

lemma display_result:
  assumes "strongSearchModalResultContainer s \<noteq> None" and "codebaseSet s"
    and "relevant_files r \<noteq> []"
    and "case answer r of None \<Rightarrow> True | Some a \<Rightarrow> markedParse E a \<noteq> None"
  shows "displayStrongSearchResult E c resp s (Some r)
       = (logged E c
            (s\<lparr>strongSearchModalResultContainer :=
                 Some (ContainerResult
                   \<lparr>answerView = (case answer r of None \<Rightarrow> None | Some a \<Rightarrow> markedParse E a),
                    structureView =
                      (case project_structure r of
                         None \<Rightarrow> NoStructureInfo
                       | Some None \<Rightarrow> StructureWithoutTree
                       | Some (Some tree) \<Rightarrow> StructureTree tree),
                    fileViews =
                      map (\<lambda>f. (f, contentShown
                                     (case resp of
                                        BatchOk contents \<Rightarrow> contents
                                      | BatchNotOk \<Rightarrow> fillContents (relevant_files r) loadFailed
                                      | BatchException \<Rightarrow>
                                          fillContents (relevant_files r) networkFailed) f))
                        (relevant_files r),
                    timeView = execution_time r\<rparr>)\<rparr>)
            (MString ''Search finished, result displayed'') ''success'',
          [FetchBatch (codebaseText s) (relevant_files r)])"
  using assms
  by (cases "answer r")
     (auto simp: displayStrongSearchResult_def fetchFileContents_def Let_def
           split: option.splits)

text \<open>
  Claim C6.  When a result frame arrives while the result container exists, a code base
  is chosen, the result names files and its answer can be rendered: the searching flag
  is cleared; one request to the batch collaborator is made, for all the files; and
  the result is displayed whatever the collaborator answers, with every file listed in
  order.  A file whose content came back is shown with it; a file without content in
  an answer is shown with the placeholder, and the other files are not touched by
  that; when the whole request fails, every file is shown with the error text.  (A
  path that is also the name of a property of \<open>Object.prototype\<close> reads that property
  where its content is missing; the statements about placeholders leave such paths out.)
\<close>

theorem result_frame_completes:
  assumes cont: "strongSearchModalResultContainer s \<noteq> None" and cb: "codebaseSet s"
    and files: "relevant_files r \<noteq> []"
    and ans: "case answer r of None \<Rightarrow> True | Some a \<Rightarrow> markedParse E a \<noteq> None"
    and res: "res = onmessage E c resp s (ResultFrame (Some r))"
  shows
   "\<not> isStrongSearching (fst res)
  \<and> snd res = [FetchBatch (codebaseText s) (relevant_files r)]
  \<and> (\<exists>v. strongSearchModalResultContainer (fst res) = Some (ContainerResult v)
        \<and> map fst (fileViews v) = relevant_files r
        \<and> answerView v = (case answer r of None \<Rightarrow> None | Some a \<Rightarrow> markedParse E a)
        \<and> timeView v = execution_time r
        \<and> (\<forall>contents f content.
              resp = BatchOk contents \<and> f \<in> set (relevant_files r)
              \<and> map_of contents f = Some content \<and> content \<noteq> []
              \<longrightarrow> (f, Text content) \<in> set (fileViews v))
        \<and> (\<forall>contents f.
              resp = BatchOk contents \<and> f \<in> set (relevant_files r)
              \<and> (map_of contents f = None \<or> map_of contents f = Some [])
              \<and> f \<notin> set objectPrototypeKeys
              \<longrightarrow> (f, Text notLoaded) \<in> set (fileViews v))
        \<and> (\<forall>f. resp = BatchNotOk \<and> f \<in> set (relevant_files r) \<and> f \<noteq> ''__proto__''
              \<longrightarrow> (f, Text loadFailed) \<in> set (fileViews v))
        \<and> (\<forall>f. resp = BatchException \<and> f \<in> set (relevant_files r) \<and> f \<noteq> ''__proto__''
              \<longrightarrow> (f, Text networkFailed) \<in> set (fileViews v)))"
proof -
  let ?contents = "case resp of
                     BatchOk contents \<Rightarrow> contents
                   | BatchNotOk \<Rightarrow> fillContents (relevant_files r) loadFailed
                   | BatchException \<Rightarrow> fillContents (relevant_files r) networkFailed"
  let ?v = "\<lparr>answerView = (case answer r of None \<Rightarrow> None | Some a \<Rightarrow> markedParse E a),
            structureView =
              (case project_structure r of
                 None \<Rightarrow> NoStructureInfo
               | Some None \<Rightarrow> StructureWithoutTree
               | Some (Some tree) \<Rightarrow> StructureTree tree),
            fileViews = map (\<lambda>f. (f, contentShown ?contents f)) (relevant_files r),
            timeView = execution_time r\<rparr>"
  note d = display_result [OF cont cb files ans, of c resp]
  have st: "fst res = (logged E c (s\<lparr>strongSearchModalResultContainer := Some (ContainerResult ?v)\<rparr>)
                        (MString ''Search finished, result displayed'') ''success'')
                      \<lparr>isStrongSearching := False\<rparr>"
    and ac: "snd res = [FetchBatch (codebaseText s) (relevant_files r)]"
    unfolding res by (simp_all add: onmessage_def handleStrongSearchWebSocketMessage_def d)
  have rc: "strongSearchModalResultContainer (fst res) = Some (ContainerResult ?v)"
    unfolding st by simp
  have mem: "(f, X) \<in> set (fileViews ?v)"
    if "f \<in> set (relevant_files r)" and "contentShown ?contents f = X" for f X
    using that by (auto simp: image_iff)
  have p1: "\<forall>contents f content.
              resp = BatchOk contents \<and> f \<in> set (relevant_files r)
              \<and> map_of contents f = Some content \<and> content \<noteq> []
              \<longrightarrow> (f, Text content) \<in> set (fileViews ?v)"
  proof (intro allI impI)
    fix contents f content
    assume a: "resp = BatchOk contents \<and> f \<in> set (relevant_files r)
              \<and> map_of contents f = Some content \<and> content \<noteq> []"
    then have "contentShown ?contents f = Text content"
      by (simp add: contentShown_present)
    with a show "(f, Text content) \<in> set (fileViews ?v)" by (intro mem) simp_all
  qed
  have p2: "\<forall>contents f.
              resp = BatchOk contents \<and> f \<in> set (relevant_files r)
              \<and> (map_of contents f = None \<or> map_of contents f = Some [])
              \<and> f \<notin> set objectPrototypeKeys
              \<longrightarrow> (f, Text notLoaded) \<in> set (fileViews ?v)"
  proof (intro allI impI)
    fix contents f
    assume a: "resp = BatchOk contents \<and> f \<in> set (relevant_files r)
              \<and> (map_of contents f = None \<or> map_of contents f = Some [])
              \<and> f \<notin> set objectPrototypeKeys"
    then have "contentShown contents f = Text notLoaded"
      by (intro contentShown_missing) simp_all
    then have "contentShown ?contents f = Text notLoaded" using a by simp
    with a show "(f, Text notLoaded) \<in> set (fileViews ?v)" by (intro mem) simp_all
  qed
  have p3: "\<forall>f. resp = BatchNotOk \<and> f \<in> set (relevant_files r) \<and> f \<noteq> ''__proto__''
              \<longrightarrow> (f, Text loadFailed) \<in> set (fileViews ?v)"
  proof (intro allI impI)
    fix f
    assume a: "resp = BatchNotOk \<and> f \<in> set (relevant_files r) \<and> f \<noteq> ''__proto__''"
    then have "contentShown ?contents f = Text loadFailed"
      by (simp add: contentShown_filled)
    with a show "(f, Text loadFailed) \<in> set (fileViews ?v)" by (intro mem) simp_all
  qed
  have p4: "\<forall>f. resp = BatchException \<and> f \<in> set (relevant_files r) \<and> f \<noteq> ''__proto__''
              \<longrightarrow> (f, Text networkFailed) \<in> set (fileViews ?v)"
  proof (intro allI impI)
    fix f
    assume a: "resp = BatchException \<and> f \<in> set (relevant_files r) \<and> f \<noteq> ''__proto__''"
    then have "contentShown ?contents f = Text networkFailed"
      by (simp add: contentShown_filled)
    with a show "(f, Text networkFailed) \<in> set (fileViews ?v)" by (intro mem) simp_all
  qed
  have mf: "map fst (fileViews ?v) = relevant_files r" by (simp add: comp_def)
  have av: "answerView ?v = (case answer r of None \<Rightarrow> None | Some a \<Rightarrow> markedParse E a)"
    and tv: "timeView ?v = execution_time r"
    by simp_all
  have fin: "\<not> isStrongSearching (fst res)" unfolding st by simp
  show ?thesis
    by (intro conjI fin ac exI [of _ ?v] rc mf av tv p1 p2 p3 p4)
qed


theorem result_frame_completes_witness:
  "strongSearchModalResultContainer searchingState \<noteq> None
 \<and> codebaseSet searchingState
 \<and> relevant_files exampleResult \<noteq> []
 \<and> answer exampleResult = Some ''X'' \<and> markedParse exampleEnv ''X'' \<noteq> None
 \<and> \<not> isStrongSearching
       (fst (onmessage exampleEnv exampleClock (BatchOk [(''a.py'', ''print(1)'')]) searchingState
               (ResultFrame (Some exampleResult))))
 \<and> snd (onmessage exampleEnv exampleClock (BatchOk [(''a.py'', ''print(1)'')]) searchingState
          (ResultFrame (Some exampleResult)))
      = [FetchBatch ''repo1'' [''a.py'', ''b.py'']]
 \<and> strongSearchModalResultContainer
      (fst (onmessage exampleEnv exampleClock (BatchOk [(''a.py'', ''print(1)'')]) searchingState
              (ResultFrame (Some exampleResult))))
      = Some (ContainerResult
               \<lparr>answerView = Some ''X'', structureView = NoStructureInfo,
                fileViews = [(''a.py'', Text ''print(1)''), (''b.py'', Text notLoaded)],
                timeView = 123 / 100\<rparr>)
 \<and> strongSearchModalResultContainer
      (fst (onmessage exampleEnv exampleClock BatchNotOk searchingState
              (ResultFrame (Some exampleResult))))
      = Some (ContainerResult
               \<lparr>answerView = Some ''X'', structureView = NoStructureInfo,
                fileViews = [(''a.py'', Text loadFailed), (''b.py'', Text loadFailed)],
                timeView = 123 / 100\<rparr>)"
proof -
  have c: "strongSearchModalResultContainer searchingState \<noteq> None"
    by (simp add: searchingState_def idleState_def)
  have cb: "codebaseSet searchingState" "codebaseText searchingState = ''repo1''"
    by (simp_all add: codebaseSet_def codebaseText_def searchingState_def idleState_def)
  have f: "relevant_files exampleResult \<noteq> []" "relevant_files exampleResult = [''a.py'', ''b.py'']"
    "answer exampleResult = Some ''X''" "project_structure exampleResult = None"
    "execution_time exampleResult = 123 / 100"
    by (simp_all add: exampleResult_def)
  have a: "case answer exampleResult of None \<Rightarrow> True | Some a \<Rightarrow> markedParse exampleEnv a \<noteq> None"
    by (simp add: exampleResult_def)
  have m: "markedParse exampleEnv ''X'' \<noteq> None" by simp
  note d = display_result [OF c cb(1) f(1) a, of exampleClock]
  have v1: "strongSearchModalResultContainer
      (fst (onmessage exampleEnv exampleClock (BatchOk [(''a.py'', ''print(1)'')]) searchingState
              (ResultFrame (Some exampleResult))))
      = Some (ContainerResult
               \<lparr>answerView = Some ''X'', structureView = NoStructureInfo,
                fileViews = [(''a.py'', Text ''print(1)''), (''b.py'', Text notLoaded)],
                timeView = 123 / 100\<rparr>)"
    by (simp add: onmessage_def handleStrongSearchWebSocketMessage_def d f contentShown_def
          objectPrototypeKeys_def)
  have v2: "strongSearchModalResultContainer
      (fst (onmessage exampleEnv exampleClock BatchNotOk searchingState
              (ResultFrame (Some exampleResult))))
      = Some (ContainerResult
               \<lparr>answerView = Some ''X'', structureView = NoStructureInfo,
                fileViews = [(''a.py'', Text loadFailed), (''b.py'', Text loadFailed)],
                timeView = 123 / 100\<rparr>)"
    by (simp add: onmessage_def handleStrongSearchWebSocketMessage_def d f contentShown_def
          fillContents_def)
  show ?thesis
    using c cb f m v1 v2
      result_frame_completes [OF c cb(1) f(1) a refl, of exampleClock
        "BatchOk [(''a.py'', ''print(1)'')]"]
      result_frame_completes [OF c cb(1) f(1) a refl, of exampleClock BatchNotOk]
      result_frame_completes [OF c cb(1) f(1) a refl, of exampleClock BatchException]
    by simp
qed

section \<open>The order of acquisition and connection\<close>

lemmas network_defs =
  goodNetwork_def badNetwork_def secondNetwork_def noIdNetwork_def failingNetwork_def
  noHostNetwork_def

lemmas session_defs =
  startStrongSearch_def connectStrongSearchWebSocket_def getStrongSearchClientId_def
  socketUrl_def codebaseSet_def codebaseText_def startFailed_def idErrorMessage_def
  trim_examples

lemma logged_example [simp]:
  "plainStart ch \<Longrightarrow>
   logged exampleEnv c s (MString (ch # rest)) ''info''
     = appendEntry (textEntry exampleEnv c ''info'' (ch # rest)) s"
  "plainStart ch \<Longrightarrow>
   logged exampleEnv c s (MString (ch # rest)) ''success''
     = appendEntry (textEntry exampleEnv c ''success'' (ch # rest)) s"
  "plainStart ch \<Longrightarrow>
   logged exampleEnv c s (MString (ch # rest)) ''error''
     = appendEntry (textEntry exampleEnv c ''error'' (ch # rest)) s"
  "plainStart ch \<Longrightarrow>
   logged exampleEnv c s (MString (ch # rest)) ''warning''
     = appendEntry (textEntry exampleEnv c ''warning'' (ch # rest)) s"
  by (rule logged_text; simp add: parseToolCall_plain)+

text \<open>
  Claim C8.  The collaborator answers the request for an identifier with status 200
  and a body that has no \<open>client_id\<close>.  No identifier has been obtained, and yet
  \<open>connectStrongSearchWebSocket\<close> opens the socket, at the address that ends in
  \<open>undefined\<close>, and resolves to \<open>true\<close>; a search started in the idle state sends its
  request over that socket.  With an identifier the opening follows its acquisition,
  and when the request fails with an error no socket is opened.
\<close>

theorem socket_opened_without_client_id:
  "\<not> idAcquired (idResponse noIdNetwork)
 \<and> getStrongSearchClientId exampleEnv exampleClock (idResponse noIdNetwork) idleState
      = (idleState, Inr None)
 \<and> fst (connectStrongSearchWebSocket exampleEnv exampleClock noIdNetwork idleState)
      = Resolved True
 \<and> snd (snd (connectStrongSearchWebSocket exampleEnv exampleClock noIdNetwork idleState))
      = [FetchClientId (IdOk None),
         OpenSocket ''ws://localhost:30089/ws/strong_search/undefined'']
 \<and> strongSearchSocket
      (fst (snd (connectStrongSearchWebSocket exampleEnv exampleClock noIdNetwork idleState)))
      = Some OPEN
 \<and> strongSearchClientId
      (fst (snd (connectStrongSearchWebSocket exampleEnv exampleClock noIdNetwork idleState)))
      = None
 \<and> \<not> idBeforeOpen
        (snd (snd (connectStrongSearchWebSocket exampleEnv exampleClock noIdNetwork idleState)))
 \<and> snd (run exampleEnv idleState [(exampleClock, Submit noIdNetwork)])
      = [FetchClientId (IdOk None),
         OpenSocket ''ws://localhost:30089/ws/strong_search/undefined'',
         SendSearch ''repo1'' ''auth flow'']
 \<and> idAcquired (idResponse goodNetwork)
 \<and> snd (run exampleEnv idleState [(exampleClock, Submit goodNetwork)])
      = [FetchClientId (IdOk (Some ''abc123'')),
         OpenSocket ''ws://localhost:30089/ws/strong_search/abc123'',
         SendSearch ''repo1'' ''auth flow'']
 \<and> idBeforeOpen (snd (run exampleEnv idleState [(exampleClock, Submit goodNetwork)]))
 \<and> snd (run exampleEnv idleState [(exampleClock, Submit badNetwork)])
      = [FetchClientId (IdHttpError ''500'')]"
  by (simp add: idAcquired_def idBeforeOpen_def endsWith_def network_defs session_defs
        idleState_def Let_def)

section \<open>Connecting twice\<close>

lemma connect_while_open:
  assumes "strongSearchSocket s = Some OPEN"
  shows "connectStrongSearchWebSocket E c n s = (Resolved True, s, [])"
  using assms by (simp add: connectStrongSearchWebSocket_def)

text \<open>A call that is suspended in its handshake goes on from the state of the suspension.\<close>

lemma connect_after_suspension:
  assumes "connectSuspended E c n s = Some (s1, acts)"
  shows "connectStrongSearchWebSocket E c n s
       = (if openOutcome n = SocketOpens
          then (Resolved True,
                logged E c
                  (updateStrongSearchConnectionStatus ''connected''
                     (s1\<lparr>strongSearchSocket := Some OPEN\<rparr>))
                  (MString ''WebSocket connected'') ''success'',
                acts)
          else (Rejected ''WebSocket connection failed'', onerror E c s1, acts))"
  using assms
  by (cases "openOutcome n")
     (auto simp: connectSuspended_def connectStrongSearchWebSocket_def Let_def
           split: if_splits prod.splits sum.splits option.splits)

text \<open>
  Claim C10.  \<open>openModal\<close> starts a connection and does not wait for it.  While that
  connection is in its handshake the socket is not open, so the guard of
  \<open>connectStrongSearchWebSocket\<close> lets a second call through: a search started then
  requests a second identifier and creates a second socket, which takes the place of
  the first one in \<open>strongSearchSocket\<close>.  The first socket is not closed: two
  connections are live.  A call while the socket is open changes nothing.
\<close>

theorem second_socket_while_connecting:
  "connectSuspended exampleEnv exampleClock goodNetwork idleState
      = Some (handshakeState,
              [FetchClientId (IdOk (Some ''abc123'')),
               OpenSocket ''ws://localhost:30089/ws/strong_search/abc123''])
 \<and> strongSearchSocket handshakeState = Some CONNECTING
 \<and> fst (connectStrongSearchWebSocket exampleEnv exampleClock secondNetwork handshakeState)
      = Resolved True
 \<and> snd (snd (connectStrongSearchWebSocket exampleEnv exampleClock secondNetwork handshakeState))
      = [FetchClientId (IdOk (Some ''def456'')),
         OpenSocket ''ws://localhost:30089/ws/strong_search/def456'']
 \<and> strongSearchClientId
      (fst (snd (connectStrongSearchWebSocket exampleEnv exampleClock secondNetwork
                   handshakeState)))
      = Some ''def456''
 \<and> snd (startStrongSearch exampleEnv exampleClock secondNetwork handshakeState)
      = [FetchClientId (IdOk (Some ''def456'')),
         OpenSocket ''ws://localhost:30089/ws/strong_search/def456'',
         SendSearch ''repo1'' ''auth flow'']
 \<and> liveConnections
      ([FetchClientId (IdOk (Some ''abc123'')),
        OpenSocket ''ws://localhost:30089/ws/strong_search/abc123'']
       @ snd (startStrongSearch exampleEnv exampleClock secondNetwork handshakeState))
      = 2
 \<and> connectStrongSearchWebSocket exampleEnv exampleClock secondNetwork searchingState
      = (Resolved True, searchingState, [])"
proof -
  have a: "connectSuspended exampleEnv exampleClock goodNetwork idleState
      = Some (handshakeState,
              [FetchClientId (IdOk (Some ''abc123'')),
               OpenSocket ''ws://localhost:30089/ws/strong_search/abc123''])"
    by (simp add: connectSuspended_def getStrongSearchClientId_def socketUrl_def
          updateStrongSearchConnectionStatus_def handshakeState_def idleState_def
          goodNetwork_def)
  have b: "strongSearchSocket handshakeState = Some CONNECTING"
    by (simp add: handshakeState_def)
  have c: "connectStrongSearchWebSocket exampleEnv exampleClock secondNetwork searchingState
      = (Resolved True, searchingState, [])"
    by (rule connect_while_open) (simp add: searchingState_def)
  show ?thesis
    unfolding a c
    by (simp add: b liveConnections_def isOpenSocket_def network_defs session_defs
          handshakeState_def idleState_def Let_def)
qed

section \<open>Tool calls and their outputs\<close>

text \<open>
  Claim C1.  The key \<open>tool-call-<name>-<time>\<close> is the same for the tool \<open>a-b\<close> at the
  time \<open>c\<close> and for the tool \<open>a\<close> at the time \<open>b-c\<close>.  After a call of \<open>a-b\<close> at
  \<open>c\<close> and a call of \<open>a\<close> at \<open>x\<close>, an output of \<open>a\<close> with the time \<open>b-c\<close> shares
  name and time with no call; the latest call of its tool is the second entry.  The
  output is written into the first entry, the call of the other tool.  Without such
  a clash the outputs go where they belong: after two calls of \<open>grep\<close>, the output
  with the time of the first call is written into the first entry, and an output with
  a time of its own is written into the second, the latest call.
\<close>

theorem tool_output_key_collision:
  "generateToolCallId ''a-b'' ''c'' = ''tool-call-a-b-c''
 \<and> generateToolCallId ''a'' ''b-c'' = ''tool-call-a-b-c''
 \<and> generateToolCallId ''a'' ''x'' = ''tool-call-a-x''
 \<and> strongSearchModalLogContainer afterCollidingCalls = Some [0, 1]
 \<and> map body (heap afterCollidingCalls)
      = [ToolCallBanner ''a-b'' ''{}'', ToolCallBanner ''a'' ''{}'']
 \<and> toolCallMap afterCollidingCalls ''tool-call-a-b-c'' = Some 0
 \<and> toolCallMap afterCollidingCalls ''tool-call-a-x'' = Some 1
 \<and> lookupByName exampleEnv afterCollidingCalls ''a'' = Element 1
 \<and> addStrongSearchLog exampleEnv exampleClock afterCollidingCalls (MObject collidingOutput)
      ''tool_output''
      = Inr (attachOutput 0 ''output of a'' afterCollidingCalls)
 \<and> map outputContainer (heap (attachOutput 0 ''output of a'' afterCollidingCalls))
      = [Shown ''output of a'', Hidden]
 \<and> addStrongSearchLog exampleEnv exampleClock afterTwoGrepCalls (MObject grepOutput)
      ''tool_output''
      = Inr (attachOutput 0 ''no matches'' afterTwoGrepCalls)
 \<and> toolCallMap afterTwoGrepCalls (generateToolCallId ''grep'' ''3000'') = None
 \<and> addStrongSearchLog exampleEnv exampleClock afterTwoGrepCalls (MObject grepOutputLate)
      ''tool_output''
      = Inr (attachOutput 1 ''two matches'' afterTwoGrepCalls)
 \<and> strongSearchModalLogContainer (attachOutput 1 ''two matches'' afterTwoGrepCalls)
      = Some [0, 1]"
  by (simp add: afterCollidingCalls_def collidingOutput_def afterTwoGrepCalls_def
        example_defs log_defs stateOf_def)

section \<open>What is recorded of a log frame\<close>

text \<open>
  Against claim C7 as it is written: a log frame of the level \<open>tool_call_decision\<close>
  whose message is an object with a tool name is dispatched without any change of the
  state; the log store, empty before, is empty after, and nothing was merged.
\<close>

theorem decision_frame_leaves_no_record:
  "onmessage exampleEnv exampleClock BatchException idleState
      (LogFrame ''tool_call_decision'' (Some (MObject grepCall))) = (idleState, [])
 \<and> logSize idleState = 0 \<and> heap idleState = []"
  by (simp add: onmessage_def handleStrongSearchWebSocketMessage_def logSize_def
        example_defs log_defs)

lemma appendedTo_appendEntry:
  assumes "heap s1 = heap s"
    and "strongSearchModalLogContainer s1 = strongSearchModalLogContainer s"
    and "strongSearchModalLogContainer s = Some kids"
  shows "appendedTo s [en] (appendEntry en s1)"
  using assms
  by (simp add: appendedTo_def appendEntry_def evictOldest_drop)

lemma hasText_unmatched:
  "hasText E msg level \<Longrightarrow> matchToolOutput E c s msg level = None"
  by (auto simp: hasText_def matchToolOutput_def split: message.splits option.splits)

lemma hasText_format:
  "hasText E msg level \<Longrightarrow> formattedNonEmpty (fst (formatMessage E c msg level))"
  by (auto simp: hasText_def formatMessage_def bannerOf_def
           split: message.splits option.splits)

lemma hasText_inside:
  "hasText E msg level \<Longrightarrow> snd (snd (formatMessage E c msg level)) = None \<or> insideTry msg"
  by (auto simp: hasText_def formatMessage_def insideTry_def
           split: message.splits option.splits)

lemma logged_hasText:
  assumes "strongSearchModalLogContainer s \<noteq> None" and "hasText E msg level"
  shows "\<exists>s1. logged E c s msg level = appendEntry (renderedEntry E c msg level) s1
            \<and> heap s1 = heap s
            \<and> strongSearchModalLogContainer s1 = strongSearchModalLogContainer s"
proof -
  obtain f b reg where fm: "formatMessage E c msg level = (f, b, reg)"
    by (cases "formatMessage E c msg level")
  have m: "matchToolOutput E c s msg level = None" by (rule hasText_unmatched [OF assms(2)])
  have ne: "formattedNonEmpty f" using hasText_format [OF assms(2), of c] fm by simp
  have ins: "reg = None \<or> insideTry msg" using hasText_inside [OF assms(2), of c] fm by simp
  show ?thesis
  proof (cases reg)
    case None
    have "logged E c s msg level = appendEntry (renderedEntry E c msg level) s"
      using assms(1) m fm ne None
      by (auto simp: logged_def addStrongSearchLog_def renderedEntry_def Let_def)
    then show ?thesis by blast
  next
    case (Some nt)
    obtain n t where nt: "nt = (n, t)" by (cases nt)
    let ?r = "registerToolCall E n t (length (heap s)) s"
    have it: "insideTry msg" using ins Some by simp
    have "logged E c s msg level = appendEntry (renderedEntry E c msg level) (stateOf ?r)"
      using assms(1) m fm ne Some nt it
      by (cases ?r)
         (auto simp: logged_def addStrongSearchLog_def renderedEntry_def Let_def)
    moreover have "heap (stateOf ?r) = heap s"
      "strongSearchModalLogContainer (stateOf ?r) = strongSearchModalLogContainer s"
      by simp_all
    ultimately show ?thesis by blast
  qed
qed

lemma registerToolCall_throws:
  "assignmentThrows E s n \<Longrightarrow>
   registerToolCall E n t e s
     = Inl (TypeError, s\<lparr>toolCallMap := (toolCallMap s)(generateToolCallId n t \<mapsto> e)\<rparr>)"
  by (auto simp: assignmentThrows_def registerToolCall_def storeByName_def Let_def)

lemma registerToolCall_returns:
  "\<not> assignmentThrows E s n \<Longrightarrow>
   \<exists>s1. registerToolCall E n t e s = Inr s1
      \<and> toolCallMap s1 = (toolCallMap s)(generateToolCallId n t \<mapsto> e)"
  by (auto simp: assignmentThrows_def registerToolCall_def storeByName_def Let_def
           split: assign_outcome.splits)

lemma toolCallMap_appendEntry [simp]: "toolCallMap (appendEntry en s) = toolCallMap s"
  by (simp add: appendEntry_def split: option.splits)

lemma logged_tool_call:
  assumes "strongSearchModalLogContainer s \<noteq> None" and "tool_name m = Some n"
    and "\<not> assignmentThrows E s n"
  shows "\<exists>s1. logged E c s (MObject m) ''tool_call''
              = appendEntry (renderedEntry E c (MObject m) ''tool_call'') s1
            \<and> heap s1 = heap s
            \<and> strongSearchModalLogContainer s1 = strongSearchModalLogContainer s
            \<and> toolCallMap s1
                = (toolCallMap s)(generateToolCallId n
                     (case timestamp m of Some t \<Rightarrow> t | None \<Rightarrow> dateNow c)
                     \<mapsto> length (heap s))"
proof -
  let ?t = "case timestamp m of Some t \<Rightarrow> t | None \<Rightarrow> dateNow c"
  let ?r = "registerToolCall E n ?t (length (heap s)) s"
  from registerToolCall_returns [OF assms(3), of ?t "length (heap s)"]
  obtain s1 where s1: "?r = Inr s1"
    "toolCallMap s1 = (toolCallMap s)(generateToolCallId n ?t \<mapsto> length (heap s))"
    by blast
  have "heap (stateOf ?r) = heap s"
    "strongSearchModalLogContainer (stateOf ?r) = strongSearchModalLogContainer s"
    by simp_all
  then have h: "heap s1 = heap s"
    "strongSearchModalLogContainer s1 = strongSearchModalLogContainer s"
    using s1(1) by simp_all
  have "logged E c s (MObject m) ''tool_call''
      = appendEntry (renderedEntry E c (MObject m) ''tool_call'') s1"
    using assms(1,2) s1(1)
    by (auto simp: logged_def addStrongSearchLog_def matchToolOutput_def formatMessage_def
          bannerOf_def renderedEntry_def Let_def)
  then show ?thesis using h s1(2) by blast
qed

lemma logged_tool_call_throws:
  assumes "strongSearchModalLogContainer s \<noteq> None" and "tool_name m = Some n"
    and "assignmentThrows E s n"
  shows "logged E c s (MObject m) ''tool_call''
       = s\<lparr>toolCallMap := (toolCallMap s)(generateToolCallId n
                (case timestamp m of Some t \<Rightarrow> t | None \<Rightarrow> dateNow c) \<mapsto> length (heap s)),
           heap := heap s @ [unfilled ''tool_call'']\<rparr>"
  using assms
  by (auto simp: logged_def addStrongSearchLog_def matchToolOutput_def formatMessage_def
        bannerOf_def insideTry_def Let_def registerToolCall_throws)

lemma logged_output_matched:
  assumes "strongSearchModalLogContainer s \<noteq> None" and "tool_name m = Some n"
    and "toolCallMap s (generateToolCallId n
           (case timestamp m of Some t \<Rightarrow> t | None \<Rightarrow> dateNow c)) = Some a
       \<or> toolCallMap s (generateToolCallId n
           (case timestamp m of Some t \<Rightarrow> t | None \<Rightarrow> dateNow c)) = None
         \<and> lookupByName E s n = Element a"
  shows "logged E c s (MObject m) ''tool_output''
       = attachOutput a (case output_preview m of Some p \<Rightarrow> p | None \<Rightarrow> noOutput) s"
  using assms by (auto simp: logged_def addStrongSearchLog_def matchToolOutput_def Let_def)

lemma logged_decision:
  "tool_name m \<noteq> None \<Longrightarrow> logged E c s (MObject m) ''tool_call_decision'' = s"
  by (auto simp: logged_def addStrongSearchLog_def matchToolOutput_def formatMessage_def Let_def)

lemma logged_no_text:
  assumes "msg = MString str \<or> msg = MOther str" and "\<not> hasText E msg level"
  shows "logged E c s msg level = s"
  using assms
  by (auto simp: logged_def addStrongSearchLog_def matchToolOutput_def formatMessage_def
        hasText_def Let_def split: option.splits)

text \<open>
  Claim C7, amended.  A log frame whose message has a text to show is appended to the
  log store as its newest entry, under its level.  A structured \<open>tool_call\<close> is
  appended, and stored under its key, unless the assignment to \<open>toolCallsByName\<close>
  throws; then nothing is appended and the element is left unfilled.  A structured
  \<open>tool_output\<close> that finds a call, under its key or else under its tool name, is
  written into the entry of that call.  A structured \<open>tool_call_decision\<close> leaves the
  state as it is, and so does a string or another primitive without a text to show.
\<close>

theorem log_frame_recorded:
  assumes kids: "strongSearchModalLogContainer s = Some kids"
    and s': "s' = fst (onmessage E c resp s (LogFrame level (Some msg)))"
  shows
   "(hasText E msg level
     \<longrightarrow> appendedTo s [renderedEntry E c msg level] s'
       \<and> formattedNonEmpty (body (renderedEntry E c msg level)))
  \<and> (msg = MObject m \<and> level = ''tool_call'' \<and> tool_name m = Some n
       \<and> \<not> assignmentThrows E s n
     \<longrightarrow> appendedTo s [renderedEntry E c msg level] s'
       \<and> body (renderedEntry E c msg level)
           = ToolCallBanner (escapeHtml E n)
               (case parameters m of Some p \<Rightarrow> p | None \<Rightarrow> ''{}'')
       \<and> toolCallMap s' (generateToolCallId n
             (case timestamp m of Some t \<Rightarrow> t | None \<Rightarrow> dateNow c))
           = Some (length (heap s)))
  \<and> (msg = MObject m \<and> level = ''tool_call'' \<and> tool_name m = Some n
       \<and> assignmentThrows E s n
     \<longrightarrow> strongSearchModalLogContainer s' = Some kids
       \<and> heap s' = heap s @ [unfilled level])
  \<and> (msg = MObject m \<and> level = ''tool_output'' \<and> tool_name m = Some n
       \<and> (toolCallMap s (generateToolCallId n
               (case timestamp m of Some t \<Rightarrow> t | None \<Rightarrow> dateNow c)) = Some a
          \<or> toolCallMap s (generateToolCallId n
               (case timestamp m of Some t \<Rightarrow> t | None \<Rightarrow> dateNow c)) = None
            \<and> lookupByName E s n = Element a)
     \<longrightarrow> s' = attachOutput a (case output_preview m of Some p \<Rightarrow> p | None \<Rightarrow> noOutput) s)
  \<and> (msg = MObject m \<and> level = ''tool_call_decision'' \<and> tool_name m \<noteq> None
     \<longrightarrow> s' = s)
  \<and> ((msg = MString str \<or> msg = MOther str) \<and> \<not> hasText E msg level
     \<longrightarrow> s' = s)"
proof -
  have cont: "strongSearchModalLogContainer s \<noteq> None" using kids by simp
  have eq: "s' = logged E c s msg level" by (simp add: s' onmessage_log)
  have c1: "hasText E msg level
     \<longrightarrow> appendedTo s [renderedEntry E c msg level] s'
       \<and> formattedNonEmpty (body (renderedEntry E c msg level))"
  proof
    assume h: "hasText E msg level"
    from logged_hasText [OF cont h, of c] obtain s1 where
      s1: "logged E c s msg level = appendEntry (renderedEntry E c msg level) s1"
        "heap s1 = heap s"
        "strongSearchModalLogContainer s1 = strongSearchModalLogContainer s"
      by blast
    have "appendedTo s [renderedEntry E c msg level] s'"
      unfolding eq s1(1) by (rule appendedTo_appendEntry [OF s1(2) s1(3) kids])
    moreover have "formattedNonEmpty (body (renderedEntry E c msg level))"
      using hasText_format [OF h, of c]
      by (cases "formatMessage E c msg level") (simp add: renderedEntry_def)
    ultimately show "appendedTo s [renderedEntry E c msg level] s'
       \<and> formattedNonEmpty (body (renderedEntry E c msg level))" by simp
  qed
  have c2: "msg = MObject m \<and> level = ''tool_call'' \<and> tool_name m = Some n
       \<and> \<not> assignmentThrows E s n
     \<longrightarrow> appendedTo s [renderedEntry E c msg level] s'
       \<and> body (renderedEntry E c msg level)
           = ToolCallBanner (escapeHtml E n)
               (case parameters m of Some p \<Rightarrow> p | None \<Rightarrow> ''{}'')
       \<and> toolCallMap s' (generateToolCallId n
             (case timestamp m of Some t \<Rightarrow> t | None \<Rightarrow> dateNow c))
           = Some (length (heap s))"
  proof
    assume a: "msg = MObject m \<and> level = ''tool_call'' \<and> tool_name m = Some n
       \<and> \<not> assignmentThrows E s n"
    then have m: "msg = MObject m" "level = ''tool_call''" "tool_name m = Some n"
      "\<not> assignmentThrows E s n" by simp_all
    from logged_tool_call [OF cont m(3) m(4), of c] obtain s1 where
      s1: "logged E c s (MObject m) ''tool_call''
              = appendEntry (renderedEntry E c (MObject m) ''tool_call'') s1"
        "heap s1 = heap s"
        "strongSearchModalLogContainer s1 = strongSearchModalLogContainer s"
        "toolCallMap s1
                = (toolCallMap s)(generateToolCallId n
                     (case timestamp m of Some t \<Rightarrow> t | None \<Rightarrow> dateNow c)
                     \<mapsto> length (heap s))"
      by blast
    have "appendedTo s [renderedEntry E c msg level] s'"
      unfolding eq m(1) m(2) s1(1) by (rule appendedTo_appendEntry [OF s1(2) s1(3) kids])
    moreover have "body (renderedEntry E c msg level)
           = ToolCallBanner (escapeHtml E n)
               (case parameters m of Some p \<Rightarrow> p | None \<Rightarrow> ''{}'')"
      using m by (simp add: renderedEntry_def formatMessage_def bannerOf_def)
    moreover have "toolCallMap s' (generateToolCallId n
             (case timestamp m of Some t \<Rightarrow> t | None \<Rightarrow> dateNow c))
           = Some (length (heap s))"
      unfolding eq m(1) m(2) s1(1) by (simp add: s1(4))
    ultimately show "appendedTo s [renderedEntry E c msg level] s'
       \<and> body (renderedEntry E c msg level)
           = ToolCallBanner (escapeHtml E n)
               (case parameters m of Some p \<Rightarrow> p | None \<Rightarrow> ''{}'')
       \<and> toolCallMap s' (generateToolCallId n
             (case timestamp m of Some t \<Rightarrow> t | None \<Rightarrow> dateNow c))
           = Some (length (heap s))" by simp
  qed
  have c3: "msg = MObject m \<and> level = ''tool_call'' \<and> tool_name m = Some n
       \<and> assignmentThrows E s n
     \<longrightarrow> strongSearchModalLogContainer s' = Some kids
       \<and> heap s' = heap s @ [unfilled level]"
    using logged_tool_call_throws [OF cont, of m n E c] kids by (auto simp: eq)
  have c4: "msg = MObject m \<and> level = ''tool_output'' \<and> tool_name m = Some n
       \<and> (toolCallMap s (generateToolCallId n
               (case timestamp m of Some t \<Rightarrow> t | None \<Rightarrow> dateNow c)) = Some a
          \<or> toolCallMap s (generateToolCallId n
               (case timestamp m of Some t \<Rightarrow> t | None \<Rightarrow> dateNow c)) = None
            \<and> lookupByName E s n = Element a)
     \<longrightarrow> s' = attachOutput a (case output_preview m of Some p \<Rightarrow> p | None \<Rightarrow> noOutput) s"
    using logged_output_matched [OF cont, of m n c a E] by (auto simp: eq)
  have c5: "msg = MObject m \<and> level = ''tool_call_decision'' \<and> tool_name m \<noteq> None
     \<longrightarrow> s' = s"
    using logged_decision [of m E c s] by (auto simp: eq)
  have c6: "(msg = MString str \<or> msg = MOther str) \<and> \<not> hasText E msg level \<longrightarrow> s' = s"
    using logged_no_text [of msg str E level c s] by (auto simp: eq)
  show ?thesis by (intro conjI c1 c2 c3 c4 c5 c6)
qed


theorem log_frame_recorded_witness:
  "strongSearchModalLogContainer idleState = Some []
 \<and> hasText exampleEnv (MString ''thinking'') ''info''
 \<and> strongSearchModalLogContainer
      (fst (onmessage exampleEnv exampleClock BatchException idleState
              (LogFrame ''info'' (Some (MString ''thinking''))))) = Some [0]
 \<and> tool_name grepCall = Some ''grep''
 \<and> \<not> assignmentThrows exampleEnv idleState ''grep''
 \<and> toolCallMap
      (fst (onmessage exampleEnv exampleClock BatchException idleState
              (LogFrame ''tool_call'' (Some (MObject grepCall)))))
      ''tool-call-grep-1000'' = Some 0
 \<and> strongSearchModalLogContainer afterProtoCall = Some [0]
 \<and> tool_name (toolMessage ''className'' ''2000'' None) = Some ''className''
 \<and> assignmentThrows elementEnv afterProtoCall ''className''
 \<and> strongSearchModalLogContainer
      (fst (onmessage elementEnv exampleClock BatchException afterProtoCall
              (LogFrame ''tool_call'' (Some (MObject (toolMessage ''className'' ''2000'' None))))))
      = Some [0]
 \<and> strongSearchModalLogContainer afterTwoGrepCalls = Some [0, 1]
 \<and> tool_name grepOutputLate = Some ''grep''
 \<and> toolCallMap afterTwoGrepCalls (generateToolCallId ''grep'' ''3000'') = None
 \<and> lookupByName exampleEnv afterTwoGrepCalls ''grep'' = Element 1
 \<and> fst (onmessage exampleEnv exampleClock BatchException afterTwoGrepCalls
           (LogFrame ''tool_output'' (Some (MObject grepOutputLate))))
      = attachOutput 1 ''two matches'' afterTwoGrepCalls
 \<and> tool_name grepCall \<noteq> None
 \<and> fst (onmessage exampleEnv exampleClock BatchException idleState
           (LogFrame ''tool_call_decision'' (Some (MObject grepCall)))) = idleState
 \<and> \<not> hasText exampleEnv (MString []) ''info''
 \<and> fst (onmessage exampleEnv exampleClock BatchException idleState
           (LogFrame ''info'' (Some (MString [])))) = idleState"
proof -
  have k0: "strongSearchModalLogContainer idleState = Some []" by (simp add: idleState_def)
  have h0: "heap idleState = []" by (simp add: idleState_def)
  have r: "hasText exampleEnv (MString ''thinking'') ''info''"
    "\<not> hasText exampleEnv (MString []) ''info''"
    by (simp_all add: hasText_def)
  have g: "tool_name grepCall = Some ''grep''" "timestamp grepCall = Some ''1000''"
    "tool_name grepOutputLate = Some ''grep''" "timestamp grepOutputLate = Some ''3000''"
    "output_preview grepOutputLate = Some ''two matches''"
    "tool_name (toolMessage ''className'' ''2000'' None) = Some ''className''"
    by (simp_all add: grepCall_def grepOutputLate_def toolMessage_def)
  have nt: "\<not> assignmentThrows exampleEnv idleState ''grep''"
    by (simp add: assignmentThrows_def idleState_def)
  have kp: "strongSearchModalLogContainer afterProtoCall = Some [0]"
    by (simp add: afterProtoCall_def elementEnv_def example_defs log_defs stateOf_def)
  have th: "assignmentThrows elementEnv afterProtoCall ''className''"
    by (simp add: assignmentThrows_def afterProtoCall_def elementEnv_def example_defs log_defs
          stateOf_def)
  have k2: "strongSearchModalLogContainer afterTwoGrepCalls = Some [0, 1]"
    by (simp add: afterTwoGrepCalls_def example_defs log_defs stateOf_def)
  have m: "toolCallMap afterTwoGrepCalls (generateToolCallId ''grep'' ''3000'') = None"
    "lookupByName exampleEnv afterTwoGrepCalls ''grep'' = Element 1"
    by (simp_all add: afterTwoGrepCalls_def example_defs log_defs stateOf_def)
  have key: "generateToolCallId ''grep'' ''1000'' = ''tool-call-grep-1000''"
    by (simp add: generateToolCallId_def)
  show ?thesis
    using k0 r g nt kp th k2 m
      log_frame_recorded [OF k0 refl, where E = exampleEnv
        and msg = "MString ''thinking''" and level = "''info''" and c = exampleClock
        and resp = BatchException]
      log_frame_recorded [OF k0 refl, where E = exampleEnv
        and msg = "MObject grepCall" and level = "''tool_call''" and m = grepCall
        and n = "''grep''" and c = exampleClock and resp = BatchException]
      log_frame_recorded [OF kp refl, where E = elementEnv
        and msg = "MObject (toolMessage ''className'' ''2000'' None)"
        and level = "''tool_call''" and m = "toolMessage ''className'' ''2000'' None"
        and n = "''className''" and c = exampleClock and resp = BatchException]
      log_frame_recorded [OF k2 refl, where E = exampleEnv
        and msg = "MObject grepOutputLate" and level = "''tool_output''" and m = grepOutputLate
        and n = "''grep''" and c = exampleClock and a = 1 and resp = BatchException]
      log_frame_recorded [OF k0 refl, where E = exampleEnv
        and msg = "MObject grepCall" and level = "''tool_call_decision''" and m = grepCall
        and c = exampleClock and resp = BatchException]
      log_frame_recorded [OF k0 refl, where E = exampleEnv
        and msg = "MString []" and level = "''info''" and str = "[]"
        and c = exampleClock and resp = BatchException]
    by (simp add: appendedTo_def h0 key maxLogEntries_def)
qed

section \<open>Starting a search without a connection\<close>

text \<open>
  Against claim C4 as it is written: in the idle state (no socket, no search running)
  \<open>startStrongSearch\<close> does not fail.  It appends four entries to the log store,
  sets the searching flag, requests an identifier, opens the socket and sends the
  search request.
\<close>

theorem start_while_idle_proceeds:
  "strongSearchSocket idleState = None
 \<and> \<not> isStrongSearching idleState
 \<and> logSize idleState = 0
 \<and> isStrongSearching (fst (startStrongSearch exampleEnv exampleClock goodNetwork idleState))
 \<and> strongSearchSocket (fst (startStrongSearch exampleEnv exampleClock goodNetwork idleState))
      = Some OPEN
 \<and> logSize (fst (startStrongSearch exampleEnv exampleClock goodNetwork idleState)) = 4
 \<and> snd (startStrongSearch exampleEnv exampleClock goodNetwork idleState)
      = [FetchClientId (IdOk (Some ''abc123'')),
         OpenSocket ''ws://localhost:30089/ws/strong_search/abc123'',
         SendSearch ''repo1'' ''auth flow'']"
  by (simp add: session_defs network_defs idleState_def logSize_def container_appendEntry
        heap_appendEntry evictOldest_drop maxLogEntries_def Let_def)

lemma upt_entries:
  "[h ..< h + 3] = [h, Suc h, Suc (Suc h)]"
  "[h ..< h + 4] = [h, Suc h, Suc (Suc h), Suc (Suc (Suc h))]"
  by (simp_all add: numeral_eq_Suc upt_rec)

lemma appendedTo_intro:
  assumes "heap s' = heap s @ ens"
    and "strongSearchModalLogContainer s = Some kids"
    and "strongSearchModalLogContainer s'
           = Some (evictOldest (kids @ [length (heap s) ..< length (heap s) + length ens]))"
  shows "appendedTo s ens s'"
  using assms by (simp add: appendedTo_def evictOldest_drop)


lemma session_fields [simp]:
  "strongSearchModalLogContainer (s\<lparr>isStrongSearching := b\<rparr>) = strongSearchModalLogContainer s"
  "heap (s\<lparr>isStrongSearching := b\<rparr>) = heap s"
  by simp_all

text \<open>
  Claim C4, amended.  When \<open>startStrongSearch\<close> is called without a connection, with
  a code base chosen and a query typed, it is not rejected: it logs a separator and the
  query, sets the searching flag and connects by itself.  When the collaborator answers
  and the socket opens, the connection and the request are logged, the request is sent
  over the socket and the search is running.  When the handshake fails, when the socket
  cannot be created, or when the collaborator gives no answer, the cause and the failure
  of the start are logged as errors, the searching flag is cleared, no socket is kept
  and nothing is sent.
\<close>

theorem start_while_idle_connects:
  assumes idle: "\<not> isStrongSearching s" "strongSearchSocket s = None"
    and ready: "codebaseSet s" "strongSearchModalQueryInput s = Some text" "trim text \<noteq> []"
    and kids: "strongSearchModalLogContainer s = Some kids"
    and esc: "\<forall>x. x \<noteq> [] \<longrightarrow> escapeHtml E x \<noteq> []"
    and r: "r = startStrongSearch E c n s"
    and sep: "sep = textEntry E c ''info'' ''--------- new search ---------''"
    and prep: "prep = textEntry E c ''info''
                 (''Preparing strong search: '' @ [CHR 0x22] @ trim text @ [CHR 0x22])"
    and failed: "failed = textEntry E c ''error''
                   ''Failed to start the search: WebSocket connection failed''"
  shows
   "(idResponse n = IdOk cid \<and> apiHost n = Some host \<and> openOutcome n = SocketOpens
     \<longrightarrow> isStrongSearching (fst r) \<and> strongSearchSocket (fst r) = Some OPEN
       \<and> snd r = [FetchClientId (IdOk cid), OpenSocket (socketUrl n host cid),
                  SendSearch (codebaseText s) (trim text)]
       \<and> appendedTo s
           [sep, prep, textEntry E c ''success'' ''WebSocket connected'',
            textEntry E c ''info'' ''Search request sent'']
           (fst r))
  \<and> (idResponse n = IdOk cid \<and> apiHost n = Some host \<and> openOutcome n = SocketFails
     \<longrightarrow> \<not> isStrongSearching (fst r) \<and> strongSearchSocket (fst r) = None
       \<and> snd r = [FetchClientId (IdOk cid), OpenSocket (socketUrl n host cid)]
       \<and> appendedTo s
           [sep, prep, textEntry E c ''error'' ''WebSocket connection error'', failed]
           (fst r))
  \<and> (idResponse n = IdOk cid \<and> (apiHost n = None \<or> openOutcome n = ConstructorThrows)
     \<longrightarrow> \<not> isStrongSearching (fst r) \<and> strongSearchSocket (fst r) = None
       \<and> snd r = [FetchClientId (IdOk cid)]
       \<and> appendedTo s [sep, prep, failed] (fst r))
  \<and> ((\<forall>i. idResponse n \<noteq> IdOk i)
     \<longrightarrow> \<not> isStrongSearching (fst r) \<and> strongSearchSocket (fst r) = None
       \<and> snd r = [FetchClientId (idResponse n)]
       \<and> appendedTo s
           [sep, prep,
            textEntry E c ''error'' (''Cannot get client id: '' @ idErrorMessage (idResponse n)),
            failed]
           (fst r))"
proof -
  have lg: "\<And>ch rest level st. plainStart ch \<Longrightarrow> level \<noteq> ''agent_thinking'' \<Longrightarrow>
      logged E c st (MString (ch # rest)) level
        = appendEntry (textEntry E c level (ch # rest)) st"
    by (rule logged_text) (simp_all add: parseToolCall_plain esc)
  note defs = r sep prep failed startStrongSearch_def connectStrongSearchWebSocket_def
    getStrongSearchClientId_def startFailed_def onerror_def Let_def lg
  note log = container_appendEntry heap_appendEntry evictOldest_append upt_entries
  have c1: "idResponse n = IdOk cid \<and> apiHost n = Some host \<and> openOutcome n = SocketOpens
     \<longrightarrow> isStrongSearching (fst r) \<and> strongSearchSocket (fst r) = Some OPEN
       \<and> snd r = [FetchClientId (IdOk cid), OpenSocket (socketUrl n host cid),
                  SendSearch (codebaseText s) (trim text)]
       \<and> appendedTo s
           [sep, prep, textEntry E c ''success'' ''WebSocket connected'',
            textEntry E c ''info'' ''Search request sent'']
           (fst r)"
  proof (intro impI conjI)
    assume a: "idResponse n = IdOk cid \<and> apiHost n = Some host \<and> openOutcome n = SocketOpens"
    show "isStrongSearching (fst r)" "strongSearchSocket (fst r) = Some OPEN"
      "snd r = [FetchClientId (IdOk cid), OpenSocket (socketUrl n host cid),
                  SendSearch (codebaseText s) (trim text)]"
      using idle ready a by (simp_all add: defs codebaseText_def)
    show "appendedTo s
           [sep, prep, textEntry E c ''success'' ''WebSocket connected'',
            textEntry E c ''info'' ''Search request sent'']
           (fst r)"
    proof (rule appendedTo_intro [OF _ kids])
      show "heap (fst r) = heap s @ [sep, prep, textEntry E c ''success'' ''WebSocket connected'',
            textEntry E c ''info'' ''Search request sent'']"
        using idle ready a kids by (simp add: defs log)
      show "strongSearchModalLogContainer (fst r)
          = Some (evictOldest (kids @ [length (heap s) ..< length (heap s)
                + length [sep, prep, textEntry E c ''success'' ''WebSocket connected'',
                          textEntry E c ''info'' ''Search request sent'']]))"
        using idle ready a kids by (simp add: defs log)
    qed
  qed
  have c2: "idResponse n = IdOk cid \<and> apiHost n = Some host \<and> openOutcome n = SocketFails
     \<longrightarrow> \<not> isStrongSearching (fst r) \<and> strongSearchSocket (fst r) = None
       \<and> snd r = [FetchClientId (IdOk cid), OpenSocket (socketUrl n host cid)]
       \<and> appendedTo s
           [sep, prep, textEntry E c ''error'' ''WebSocket connection error'', failed]
           (fst r)"
  proof (intro impI conjI)
    assume a: "idResponse n = IdOk cid \<and> apiHost n = Some host \<and> openOutcome n = SocketFails"
    show "\<not> isStrongSearching (fst r)" "strongSearchSocket (fst r) = None"
      "snd r = [FetchClientId (IdOk cid), OpenSocket (socketUrl n host cid)]"
      using idle ready a by (simp_all add: defs)
    show "appendedTo s
           [sep, prep, textEntry E c ''error'' ''WebSocket connection error'', failed]
           (fst r)"
    proof (rule appendedTo_intro [OF _ kids])
      show "heap (fst r)
          = heap s @ [sep, prep, textEntry E c ''error'' ''WebSocket connection error'', failed]"
        using idle ready a kids by (simp add: defs log)
      show "strongSearchModalLogContainer (fst r)
          = Some (evictOldest (kids @ [length (heap s) ..< length (heap s)
                + length [sep, prep, textEntry E c ''error'' ''WebSocket connection error'',
                          failed]]))"
        using idle ready a kids by (simp add: defs log)
    qed
  qed
  have c3: "idResponse n = IdOk cid \<and> (apiHost n = None \<or> openOutcome n = ConstructorThrows)
     \<longrightarrow> \<not> isStrongSearching (fst r) \<and> strongSearchSocket (fst r) = None
       \<and> snd r = [FetchClientId (IdOk cid)]
       \<and> appendedTo s [sep, prep, failed] (fst r)"
  proof (intro impI conjI)
    assume a: "idResponse n = IdOk cid \<and> (apiHost n = None \<or> openOutcome n = ConstructorThrows)"
    show "\<not> isStrongSearching (fst r)" "strongSearchSocket (fst r) = None"
      "snd r = [FetchClientId (IdOk cid)]"
      using idle ready a by (auto simp: defs split: option.splits)
    show "appendedTo s [sep, prep, failed] (fst r)"
    proof (rule appendedTo_intro [OF _ kids])
      show "heap (fst r) = heap s @ [sep, prep, failed]"
        using idle ready a kids by (auto simp: defs log split: option.splits)
      show "strongSearchModalLogContainer (fst r)
          = Some (evictOldest (kids @ [length (heap s) ..< length (heap s)
                + length [sep, prep, failed]]))"
        using idle ready a kids by (auto simp: defs log split: option.splits)
    qed
  qed
  have c4: "(\<forall>i. idResponse n \<noteq> IdOk i)
     \<longrightarrow> \<not> isStrongSearching (fst r) \<and> strongSearchSocket (fst r) = None
       \<and> snd r = [FetchClientId (idResponse n)]
       \<and> appendedTo s
           [sep, prep,
            textEntry E c ''error'' (''Cannot get client id: '' @ idErrorMessage (idResponse n)),
            failed]
           (fst r)"
  proof (intro impI conjI)
    assume a: "\<forall>i. idResponse n \<noteq> IdOk i"
    show "\<not> isStrongSearching (fst r)" "strongSearchSocket (fst r) = None"
      "snd r = [FetchClientId (idResponse n)]"
      using idle ready a by (cases "idResponse n"; simp add: defs)+
    show "appendedTo s
           [sep, prep,
            textEntry E c ''error'' (''Cannot get client id: '' @ idErrorMessage (idResponse n)),
            failed]
           (fst r)"
    proof (rule appendedTo_intro [OF _ kids])
      show "heap (fst r)
          = heap s @ [sep, prep,
            textEntry E c ''error'' (''Cannot get client id: '' @ idErrorMessage (idResponse n)),
            failed]"
        using idle ready a kids by (cases "idResponse n"; simp add: defs log)
      show "strongSearchModalLogContainer (fst r)
          = Some (evictOldest (kids @ [length (heap s) ..< length (heap s)
                + length [sep, prep,
            textEntry E c ''error'' (''Cannot get client id: '' @ idErrorMessage (idResponse n)),
            failed]]))"
        using idle ready a kids by (cases "idResponse n"; simp add: defs log)
    qed
  qed
  show ?thesis by (intro conjI c1 c2 c3 c4)
qed


theorem start_while_idle_connects_witness:
  "\<not> isStrongSearching idleState \<and> strongSearchSocket idleState = None
 \<and> codebaseSet idleState \<and> strongSearchModalQueryInput idleState = Some ''auth flow''
 \<and> trim ''auth flow'' \<noteq> []
 \<and> strongSearchModalLogContainer idleState = Some []
 \<and> escapeHtml exampleEnv = (\<lambda>x. x)
 \<and> idResponse goodNetwork = IdOk (Some ''abc123'')
 \<and> apiHost goodNetwork = Some ''localhost:30089'' \<and> openOutcome goodNetwork = SocketOpens
 \<and> isStrongSearching (fst (startStrongSearch exampleEnv exampleClock goodNetwork idleState))
 \<and> map body (heap (fst (startStrongSearch exampleEnv exampleClock goodNetwork idleState)))
      = [Escaped ''--------- new search ---------'',
         Escaped (''Preparing strong search: '' @ [CHR 0x22] @ ''auth flow'' @ [CHR 0x22]),
         Escaped ''WebSocket connected'', Escaped ''Search request sent'']
 \<and> strongSearchModalLogContainer
      (fst (startStrongSearch exampleEnv exampleClock goodNetwork idleState))
      = Some [0, 1, 2, 3]
 \<and> idResponse failingNetwork = IdOk (Some ''abc123'')
 \<and> apiHost failingNetwork = Some ''localhost:30089'' \<and> openOutcome failingNetwork = SocketFails
 \<and> \<not> isStrongSearching (fst (startStrongSearch exampleEnv exampleClock failingNetwork idleState))
 \<and> map body (heap (fst (startStrongSearch exampleEnv exampleClock failingNetwork idleState)))
      = [Escaped ''--------- new search ---------'',
         Escaped (''Preparing strong search: '' @ [CHR 0x22] @ ''auth flow'' @ [CHR 0x22]),
         Escaped ''WebSocket connection error'',
         Escaped ''Failed to start the search: WebSocket connection failed'']
 \<and> idResponse noHostNetwork = IdOk (Some ''abc123'') \<and> apiHost noHostNetwork = None
 \<and> snd (startStrongSearch exampleEnv exampleClock noHostNetwork idleState)
      = [FetchClientId (IdOk (Some ''abc123''))]
 \<and> map body (heap (fst (startStrongSearch exampleEnv exampleClock noHostNetwork idleState)))
      = [Escaped ''--------- new search ---------'',
         Escaped (''Preparing strong search: '' @ [CHR 0x22] @ ''auth flow'' @ [CHR 0x22]),
         Escaped ''Failed to start the search: WebSocket connection failed'']
 \<and> idResponse badNetwork = IdHttpError ''500''
 \<and> strongSearchSocket (fst (startStrongSearch exampleEnv exampleClock badNetwork idleState)) = None
 \<and> map body (heap (fst (startStrongSearch exampleEnv exampleClock badNetwork idleState)))
      = [Escaped ''--------- new search ---------'',
         Escaped (''Preparing strong search: '' @ [CHR 0x22] @ ''auth flow'' @ [CHR 0x22]),
         Escaped ''Cannot get client id: API request failed: 500'',
         Escaped ''Failed to start the search: WebSocket connection failed'']"
proof -
  have i: "\<not> isStrongSearching idleState" "strongSearchSocket idleState = None"
    by (simp_all add: idleState_def)
  have rd: "codebaseSet idleState" "strongSearchModalQueryInput idleState = Some ''auth flow''"
    "trim ''auth flow'' \<noteq> []"
    by (simp_all add: idleState_def codebaseSet_def trim_examples)
  have k: "strongSearchModalLogContainer idleState = Some []" by (simp add: idleState_def)
  have h: "heap idleState = []" by (simp add: idleState_def)
  have e: "\<forall>x. x \<noteq> [] \<longrightarrow> escapeHtml exampleEnv x \<noteq> []" by simp
  have g: "idResponse goodNetwork = IdOk (Some ''abc123'')"
    "apiHost goodNetwork = Some ''localhost:30089''" "openOutcome goodNetwork = SocketOpens"
    by (simp_all add: goodNetwork_def)
  have f: "idResponse failingNetwork = IdOk (Some ''abc123'')"
    "apiHost failingNetwork = Some ''localhost:30089''" "openOutcome failingNetwork = SocketFails"
    by (simp_all add: network_defs)
  have nh: "idResponse noHostNetwork = IdOk (Some ''abc123'')" "apiHost noHostNetwork = None"
    by (simp_all add: network_defs)
  have b: "\<forall>i. idResponse badNetwork \<noteq> IdOk i" "idResponse badNetwork = IdHttpError ''500''"
    by (simp_all add: badNetwork_def)
  show ?thesis
    using i rd k e g f nh b
      start_while_idle_connects [OF i rd k e refl refl refl refl, where c = exampleClock
        and n = goodNetwork and cid = "Some ''abc123''" and host = "''localhost:30089''"]
      start_while_idle_connects [OF i rd k e refl refl refl refl, where c = exampleClock
        and n = failingNetwork and cid = "Some ''abc123''" and host = "''localhost:30089''"]
      start_while_idle_connects [OF i rd k e refl refl refl refl, where c = exampleClock
        and n = noHostNetwork and cid = "Some ''abc123''"]
      start_while_idle_connects [OF i rd k e refl refl refl refl, where c = exampleClock
        and n = badNetwork]
    by (simp add: appendedTo_def textEntry_def h idErrorMessage_def trim_examples
          maxLogEntries_def)
qed

section \<open>The product of doubles\<close>

lemma pow2_pos [simp]: "0 < pow2 e"
  by (simp add: pow2_def)

lemma pow2_nonpos: "d \<le> 0 \<Longrightarrow> pow2 d = 1 / 2 ^ nat (- d)"
  by (cases "d = 0") (simp_all add: pow2_def)

lemma ulp_pos [simp]: "0 < ulp x"
  by (simp add: ulp_def)

text \<open>\<open>exponentOf\<close> is the binary exponent: \<open>2\<^sup>e \<le> x < 2\<^sup>e\<^sup>+\<^sup>1\<close>.\<close>

lemma exponentOf_bounds:
  assumes "0 < x"
  shows "pow2 (exponentOf x) \<le> x" and "x < pow2 (exponentOf x + 1)"
proof -
  have "pow2 (exponentOf x) \<le> x \<and> x < pow2 (exponentOf x + 1)"
  proof (cases "1 \<le> x")
    case True
    define b where "b = bitlen \<lfloor>x\<rfloor>"
    have fl: "0 < \<lfloor>x\<rfloor>" using True by simp
    have b1: "1 \<le> b" using fl by (simp add: b_def bitlen_alt_def)
    have bb: "2 ^ nat (b - 1) \<le> \<lfloor>x\<rfloor>" "\<lfloor>x\<rfloor> < 2 ^ nat b"
      using bitlen_bounds [OF fl] by (simp_all add: b_def)
    have "(2::real) ^ nat (b - 1) \<le> of_int \<lfloor>x\<rfloor>"
      using bb(1) by (metis of_int_le_iff of_int_numeral of_int_power)
    then have lo: "(2::real) ^ nat (b - 1) \<le> x" by linarith
    have "\<lfloor>x\<rfloor> + 1 \<le> 2 ^ nat b" using bb(2) by simp
    then have "of_int (\<lfloor>x\<rfloor> + 1) \<le> (2::real) ^ nat b"
      by (metis of_int_le_iff of_int_numeral of_int_power)
    then have hi: "x < (2::real) ^ nat b" by linarith
    have e: "exponentOf x = b - 1" using True by (simp add: exponentOf_def b_def)
    show ?thesis unfolding e using lo hi b1 by (simp add: pow2_def)
  next
    case False
    define M where "M = \<lceil>1 / x\<rceil> - 1"
    define b where "b = bitlen M"
    have x1: "x < 1" using False by simp
    have "1 < 1 / x" using assms x1 by simp
    then have "1 < \<lceil>1 / x\<rceil>" by (simp add: less_ceiling_iff)
    then have M0: "0 < M" by (simp add: M_def)
    have b1: "1 \<le> b" using M0 by (simp add: b_def bitlen_alt_def)
    have bb: "2 ^ nat (b - 1) \<le> M" "M < 2 ^ nat b"
      using bitlen_bounds [OF M0] by (simp_all add: b_def)
    have "of_int M < 1 / x" unfolding M_def by linarith
    moreover have "(2::real) ^ nat (b - 1) \<le> of_int M"
      using bb(1) by (metis of_int_le_iff of_int_numeral of_int_power)
    ultimately have "(2::real) ^ nat (b - 1) < 1 / x" by linarith
    then have "x * 2 ^ nat (b - 1) < 1" using assms by (simp add: field_simps)
    then have hi: "x < 1 / 2 ^ nat (b - 1)" by (simp add: field_simps)
    have "M + 1 \<le> 2 ^ nat b" using bb(2) by simp
    then have "of_int (M + 1) \<le> (2::real) ^ nat b"
      by (metis of_int_le_iff of_int_numeral of_int_power)
    moreover have "1 / x \<le> of_int (M + 1)" unfolding M_def by simp
    ultimately have "1 / x \<le> (2::real) ^ nat b" by linarith
    then have "1 \<le> x * 2 ^ nat b" using assms by (simp add: field_simps)
    then have lo: "1 / 2 ^ nat b \<le> x" by (simp add: field_simps)
    have e: "exponentOf x = - b" using False by (simp add: exponentOf_def b_def M_def)
    have p1: "pow2 (- b) = 1 / 2 ^ nat b" using b1 pow2_nonpos [of "- b"] by simp
    have p2: "pow2 (- b + 1) = 1 / 2 ^ nat (b - 1)"
      using b1 pow2_nonpos [of "- b + 1"] by (simp add: algebra_simps)
    show ?thesis unfolding e p1 p2 using lo hi by simp
  qed
  then show "pow2 (exponentOf x) \<le> x" and "x < pow2 (exponentOf x + 1)" by simp_all
qed

lemma roundHalfEven_ge: "of_int k \<le> y \<Longrightarrow> k \<le> roundHalfEven y"
proof -
  assume "of_int k \<le> y"
  then have "k \<le> \<lfloor>y\<rfloor>" by (simp add: le_floor_iff)
  then show ?thesis by (simp add: roundHalfEven_def Let_def)
qed

lemma roundHalfEven_le: "y \<le> of_int k \<Longrightarrow> roundHalfEven y \<le> k"
proof (cases "y = of_int k")
  case True
  then show ?thesis by (simp add: roundHalfEven_def Let_def)
next
  case False
  assume "y \<le> of_int k"
  then have "y < of_int k" using False by simp
  then have "\<lfloor>y\<rfloor> < k" by (simp add: floor_less_iff)
  then show ?thesis by (simp add: roundHalfEven_def Let_def)
qed

lemma roundHalfEven_int [simp]: "roundHalfEven (of_int k) = k"
  by (simp add: roundHalfEven_def Let_def)

text \<open>The doubles are closed under the bounds that are themselves doubles.\<close>

lemma doubleOf_le:
  assumes "x \<le> g" and "g / ulp x = of_int k"
  shows "doubleOf x \<le> g \<or> x = 0"
proof (cases "x = 0")
  case True
  then show ?thesis by simp
next
  case False
  have "0 \<le> ulp x" using ulp_pos [of x] by (rule less_imp_le)
  then have "x / ulp x \<le> g / ulp x" by (rule divide_right_mono [OF assms(1)])
  then have "roundHalfEven (x / ulp x) \<le> k" unfolding assms(2) by (rule roundHalfEven_le)
  then have "of_int (roundHalfEven (x / ulp x)) * ulp x \<le> of_int k * ulp x"
    by (simp add: mult_right_mono)
  moreover have "of_int k * ulp x = g"
  proof -
    have nz: "ulp x \<noteq> 0" by (metis ulp_pos less_irrefl)
    have "of_int k * ulp x = g / ulp x * ulp x" by (simp only: assms(2))
    then show ?thesis using nz by simp
  qed
  ultimately show ?thesis using False by (simp add: doubleOf_def)
qed

lemma doubleOf_ge:
  assumes "g \<le> x" and "g / ulp x = of_int k"
  shows "g \<le> doubleOf x \<or> x = 0"
proof (cases "x = 0")
  case True
  then show ?thesis by simp
next
  case False
  have "0 \<le> ulp x" using ulp_pos [of x] by (rule less_imp_le)
  then have "g / ulp x \<le> x / ulp x" by (rule divide_right_mono [OF assms(1)])
  then have "k \<le> roundHalfEven (x / ulp x)" unfolding assms(2) by (rule roundHalfEven_ge)
  then have "of_int k * ulp x \<le> of_int (roundHalfEven (x / ulp x)) * ulp x"
    by (simp add: mult_right_mono)
  moreover have "of_int k * ulp x = g"
  proof -
    have nz: "ulp x \<noteq> 0" by (metis ulp_pos less_irrefl)
    have "of_int k * ulp x = g / ulp x * ulp x" by (simp only: assms(2))
    then show ?thesis using nz by simp
  qed
  ultimately show ?thesis using False by (simp add: doubleOf_def)
qed

lemma doubleOf_nonpos: "x \<le> 0 \<Longrightarrow> doubleOf x \<le> 0"
  using doubleOf_le [of x 0 0] by auto

lemma doubleOf_nonneg: "0 \<le> x \<Longrightarrow> 0 \<le> doubleOf x"
  using doubleOf_ge [of 0 x 0] by auto

text \<open>The exponent of a number up to \<open>100\<close> is at most \<open>6\<close>.\<close>

lemma exponentOf_small:
  assumes "0 < x" and "x \<le> 100"
  shows "exponentOf x \<le> 6"
proof (cases "1 \<le> x")
  case True
  have "\<lfloor>x\<rfloor> \<le> 100" using assms(2) by (simp add: floor_le_iff)
  then have "\<lfloor>x\<rfloor> < 2 ^ nat 7" by simp
  then have "bitlen \<lfloor>x\<rfloor> \<le> 7" by (simp add: bitlen_le_iff_power)
  then show ?thesis using True by (simp add: exponentOf_def)
next
  case False
  have "0 \<le> bitlen (\<lceil>1 / x\<rceil> - 1)" by (rule bitlen_nonneg)
  then show ?thesis using False by (simp add: exponentOf_def)
qed

text \<open>A half of an integer is a multiple of the unit of every number up to \<open>100\<close>.\<close>

lemma half_grid:
  assumes "\<bar>x\<bar> \<le> 100" and "x \<noteq> 0"
  shows "\<exists>k. (of_int j / 2) / ulp x = of_int k"
proof -
  define m where "m = max (exponentOf \<bar>x\<bar>) (- 1022)"
  have "exponentOf \<bar>x\<bar> \<le> 6" using assms by (intro exponentOf_small) simp_all
  then have m: "m \<le> 6" by (simp add: m_def)
  define d where "d = nat (51 - m)"
  have nd: "nat (52 - m) = Suc d" using m by (simp add: d_def)
  have "ulp x = 1 / 2 ^ Suc d"
    using m pow2_nonpos [of "m - 52"] by (simp add: ulp_def m_def [symmetric] nd)
  then have "(of_int j / 2) / ulp x = of_int (j * 2 ^ d)" by simp
  then show ?thesis by blast
qed

lemma doubleOf_le_half:
  assumes "\<bar>x\<bar> \<le> 100" and "x \<le> of_int j / 2"
  shows "doubleOf x \<le> of_int j / 2"
proof (cases "x = 0")
  case True
  then show ?thesis using assms(2) by simp
next
  case False
  from half_grid [OF assms(1) False, of j] obtain k where "(of_int j / 2) / ulp x = of_int k"
    by blast
  from doubleOf_le [OF assms(2) this] show ?thesis using False by simp
qed

lemma doubleOf_ge_half:
  assumes "\<bar>x\<bar> \<le> 100" and "of_int j / 2 \<le> x"
  shows "of_int j / 2 \<le> doubleOf x"
proof (cases "x = 0")
  case True
  then show ?thesis using assms(2) by simp
next
  case False
  from half_grid [OF assms(1) False, of j] obtain k where "(of_int j / 2) / ulp x = of_int k"
    by blast
  from doubleOf_ge [OF assms(2) this] show ?thesis using False by simp
qed

lemma doubleOf_whole:
  assumes "\<bar>of_int k :: real\<bar> \<le> 100"
  shows "doubleOf (of_int k) = of_int k"
proof -
  have "doubleOf (of_int k) \<le> of_int (2 * k) / 2"
    by (rule doubleOf_le_half [OF assms]) simp
  moreover have "of_int (2 * k) / 2 \<le> doubleOf (of_int k)"
    by (rule doubleOf_ge_half [OF assms]) simp
  ultimately show ?thesis by simp
qed

text \<open>A product of \<open>100\<close> or more stays there.\<close>

lemma doubleOf_large:
  assumes "100 \<le> x"
  shows "100 \<le> doubleOf x"
proof -
  have x1: "1 \<le> x" "x \<noteq> 0" "\<bar>x\<bar> = x" using assms by simp_all
  define e where "e = bitlen \<lfloor>x\<rfloor> - 1"
  have fl: "0 < \<lfloor>x\<rfloor>" using x1(1) by simp
  have e0: "0 \<le> e" using fl by (simp add: e_def bitlen_alt_def)
  have u: "ulp x = pow2 (e - 52)"
    using x1 e0 by (simp add: ulp_def exponentOf_def e_def max_def)
  show ?thesis
  proof (cases "e \<le> 52")
    case True
    have "ulp x = 1 / 2 ^ nat (52 - e)"
      unfolding u using True pow2_nonpos [of "e - 52"] by simp
    then have "100 / ulp x = of_int (100 * 2 ^ nat (52 - e))" by simp
    from doubleOf_ge [OF assms this] show ?thesis using x1(2) by simp
  next
    case False
    then have d: "0 \<le> e - 52" by simp
    have ux: "ulp x = 2 ^ nat (e - 52)" unfolding u using d by (simp add: pow2_def)
    have "2 ^ nat e \<le> \<lfloor>x\<rfloor>" using bitlen_bounds [OF fl] by (simp add: e_def)
    then have "(2::real) ^ nat e \<le> of_int \<lfloor>x\<rfloor>"
      by (metis of_int_le_iff of_int_numeral of_int_power)
    then have xe: "(2::real) ^ nat e \<le> x" by linarith
    have "nat e = 52 + nat (e - 52)" using d by simp
    then have "(2::real) ^ nat e = 2 ^ 52 * 2 ^ nat (e - 52)" by (simp add: power_add)
    then have g: "(2 ^ 52 * ulp x) / ulp x = of_int (2 ^ 52)" "2 ^ 52 * ulp x \<le> x"
      using xe by (simp_all add: ux)
    from doubleOf_ge [OF g(2) g(1)] have "2 ^ 52 * ulp x \<le> doubleOf x" using x1(2) by simp
    moreover have "(1::real) \<le> ulp x" by (simp add: ux)
    then have "(100::real) \<le> 2 ^ 52 * ulp x" by simp
    ultimately show ?thesis by linarith
  qed
qed

lemma mathRound_mono: "x \<le> y \<Longrightarrow> mathRound x \<le> mathRound y"
  by (simp add: mathRound_def floor_mono)

lemma mathRound_int [simp]: "mathRound (of_int k) = k"
  by (simp add: mathRound_def)

lemma mathRound_numeral [simp]: "mathRound (numeral k) = numeral k"
  using mathRound_int [of "numeral k"] by simp

text \<open>Clamping the percent is clamping the fraction.\<close>

lemma percent_clamp:
  "max 0 (min 100 (mathRound (doubleOf (f * 100)))) = display_percent_double f"
proof -
  have hundred: "doubleOf 100 = 100" using doubleOf_whole [of 100] by simp
  consider "f < 0" | "0 \<le> f" "f \<le> 1" | "1 < f" by linarith
  then show ?thesis
  proof cases
    case 1
    then have "doubleOf (f * 100) \<le> 0" by (intro doubleOf_nonpos) simp
    then have "mathRound (doubleOf (f * 100)) \<le> mathRound 0" by (rule mathRound_mono)
    then have "mathRound (doubleOf (f * 100)) \<le> 0" by simp
    moreover have "display_percent_double f = 0"
      using 1 by (simp add: display_percent_double_def)
    ultimately show ?thesis by simp
  next
    case 2
    then have a: "\<bar>f * 100\<bar> \<le> 100" by simp
    have "doubleOf (f * 100) \<le> of_int 200 / 2"
      by (rule doubleOf_le_half [OF a]) (use 2 in simp)
    then have "mathRound (doubleOf (f * 100)) \<le> mathRound (of_int 100)"
      by (intro mathRound_mono) simp
    then have u: "mathRound (doubleOf (f * 100)) \<le> 100" by simp
    have "0 \<le> doubleOf (f * 100)" by (rule doubleOf_nonneg) (use 2 in simp)
    then have "mathRound 0 \<le> mathRound (doubleOf (f * 100))" by (rule mathRound_mono)
    then have l: "0 \<le> mathRound (doubleOf (f * 100))" by simp
    have "display_percent_double f = mathRound (doubleOf (f * 100))"
      using 2 by (simp add: display_percent_double_def)
    then show ?thesis using u l by simp
  next
    case 3
    then have "100 \<le> doubleOf (f * 100)" by (intro doubleOf_large) simp
    then have "mathRound (of_int 100) \<le> mathRound (doubleOf (f * 100))"
      by (intro mathRound_mono) simp
    then have "100 \<le> mathRound (doubleOf (f * 100))" by simp
    moreover have "display_percent_double f = 100"
      using 3 hundred by (simp add: display_percent_double_def)
    ultimately show ?thesis by simp
  qed
qed

text \<open>The product of the doubles against the exact product: the same percent or one more.\<close>

lemma double_against_exact:
  "display_percent_spec f \<le> display_percent_double f"
  "display_percent_double f \<le> display_percent_spec f + 1"
proof -
  define y where "y = max 0 (min 1 f) * 100"
  define n where "n = \<lfloor>y + 1 / 2\<rfloor>"
  have y: "\<bar>y\<bar> \<le> 100" by (auto simp: y_def max_def min_def)
  have lo: "of_int (2 * n - 1) / 2 \<le> y"
  proof -
    have "of_int n \<le> y + 1 / 2" unfolding n_def by (rule of_int_floor_le)
    then show ?thesis by simp
  qed
  have hi: "y \<le> of_int (2 * n + 1) / 2"
  proof -
    have "y + 1 / 2 < of_int n + 1" unfolding n_def by linarith
    then show ?thesis by simp
  qed
  have "of_int (2 * n - 1) / 2 \<le> doubleOf y" by (rule doubleOf_ge_half [OF y lo])
  then have "of_int n \<le> doubleOf y + 1 / 2" by simp
  then have "n \<le> \<lfloor>doubleOf y + 1 / 2\<rfloor>" by (simp add: le_floor_iff)
  then show "display_percent_spec f \<le> display_percent_double f"
    by (simp add: display_percent_spec_def display_percent_double_def mathRound_def
          y_def [symmetric] n_def [symmetric])
  have "doubleOf y \<le> of_int (2 * n + 1) / 2" by (rule doubleOf_le_half [OF y hi])
  then have "doubleOf y + 1 / 2 \<le> of_int (n + 1)" by simp
  then have "\<lfloor>doubleOf y + 1 / 2\<rfloor> \<le> n + 1"
    by (metis floor_mono floor_of_int)
  then show "display_percent_double f \<le> display_percent_spec f + 1"
    by (simp add: display_percent_spec_def display_percent_double_def mathRound_def
          y_def [symmetric] n_def [symmetric])
qed

section \<open>The displayed progress\<close>

lemma bar_progress:
  "strongSearchModalProgressBar s = Some bar \<Longrightarrow>
   strongSearchModalProgressBar (updateStrongSearchProgressBar f st s)
     = Some (bar\<lparr>percent := display_percent_double f,
                  title := (if st \<noteq> [] then Some st else title bar)\<rparr>)"
  by (simp add: updateStrongSearchProgressBar_def percent_clamp)

lemma double_examples:
  "doubleOf (15 / 1000) = fifteenThousandths"
  "doubleOf (145 / 1000) = hundredFortyFiveThousandths"
  "doubleOf (5 / 100) = fiveHundredths"
  "doubleOf (- 2 / 10) = minusTwoTenths"
  "doubleOf (fifteenThousandths * 100) = 15 / 10"
  "doubleOf (hundredFortyFiveThousandths * 100) = 8162774324609023 / 562949953421312"
  "doubleOf (fiveHundredths * 100) = 5"
  "doubleOf (minusTwoTenths * 100) = - 20"
  by (simp_all add: doubleOf_def ulp_def exponentOf_def compute_bitlen pow2_def
        roundHalfEven_def Let_def fifteenThousandths_def hundredFortyFiveThousandths_def
        fiveHundredths_def minusTwoTenths_def)


lemma percent_examples:
  "display_percent_double fifteenThousandths = 2"
  "display_percent_double hundredFortyFiveThousandths = 14"
  "display_percent_double minusTwoTenths = 0"
  "display_percent_double (15 / 10) = 100"
  "display_percent_double (5 / 10) = 50"
  "display_percent_double fiveHundredths = 5"
  by (simp_all add: display_percent_double_def mathRound_def doubleOf_def ulp_def exponentOf_def
        compute_bitlen pow2_def roundHalfEven_def Let_def fifteenThousandths_def
        hundredFortyFiveThousandths_def fiveHundredths_def minusTwoTenths_def)

lemma spec_examples:
  "fifteenThousandths < 15 / 1000"
  "display_percent_spec fifteenThousandths = 1"
  "display_percent_spec (145 / 1000) = 15"
  "doubleOf (hundredFortyFiveThousandths * 100) < 145 / 10"
  by (simp_all add: fifteenThousandths_def display_percent_spec_def mathRound_def
        doubleOf_def ulp_def exponentOf_def compute_bitlen pow2_def roundHalfEven_def Let_def
        hundredFortyFiveThousandths_def)

lemma idleState_bar: "strongSearchModalProgressBar idleState = Some \<lparr>percent = 0, title = None\<rparr>"
  by (simp add: idleState_def)

text \<open>
  Against claim C5 as it is written.  The double nearest to \<open>0.015\<close> is a little less
  than \<open>0.015\<close>, and its product with \<open>100\<close> is the double \<open>1.5\<close>: the bar shows
  \<open>2\<close>, where \<open>round(clamp(f, 0, 1) * 100)\<close> of that double is \<open>1\<close>.  The double
  nearest to \<open>0.145\<close> has a product a little less than \<open>14.5\<close>: the bar shows \<open>14\<close>,
  where the formula gives \<open>15\<close> for \<open>0.145\<close>.
\<close>

theorem progress_product_is_rounded:
  "doubleOf (15 / 1000) = fifteenThousandths
 \<and> fifteenThousandths < 15 / 1000
 \<and> doubleOf (fifteenThousandths * 100) = 15 / 10
 \<and> map_option percent
      (strongSearchModalProgressBar (updateStrongSearchProgressBar fifteenThousandths [] idleState))
      = Some 2
 \<and> display_percent_spec fifteenThousandths = 1
 \<and> doubleOf (145 / 1000) = hundredFortyFiveThousandths
 \<and> doubleOf (hundredFortyFiveThousandths * 100) < 145 / 10
 \<and> map_option percent
      (strongSearchModalProgressBar
         (updateStrongSearchProgressBar hundredFortyFiveThousandths [] idleState))
      = Some 14
 \<and> display_percent_spec (145 / 1000) = 15"
proof -
  have b: "map_option percent
      (strongSearchModalProgressBar (updateStrongSearchProgressBar fifteenThousandths [] idleState))
      = Some 2"
    "map_option percent
      (strongSearchModalProgressBar
         (updateStrongSearchProgressBar hundredFortyFiveThousandths [] idleState))
      = Some 14"
    unfolding bar_progress [OF idleState_bar] by (simp_all add: percent_examples)
  show ?thesis
    by (intro conjI double_examples(1) spec_examples(1) double_examples(5) b(1)
          spec_examples(2) double_examples(2) spec_examples(4) b(2) spec_examples(3))
qed

text \<open>
  Claim C5, amended.  For every progress fraction, in range or not, and whatever was
  displayed before, the percent shown after \<open>updateStrongSearchProgressBar\<close> is
  \<open>round(clamp(fraction, 0, 1) * 100)\<close> with the product rounded to the nearest double;
  a later, lower fraction is shown as it comes.  The percent lies between \<open>0\<close> and
  \<open>100\<close>.  It is what the formula gives in exact arithmetic or one more, and it is
  the same when the exact product is a whole number.  The doubles nearest to \<open>-0.2\<close>,
  \<open>1.5\<close> and \<open>0.5\<close> show \<open>0\<close>, \<open>100\<close> and \<open>50\<close>.
\<close>

theorem progress_display_percent:
  assumes "strongSearchModalProgressBar s = Some bar"
  shows "map_option percent (strongSearchModalProgressBar (updateStrongSearchProgressBar f status s))
           = Some (display_percent_double f)
       \<and> map_option percent
           (strongSearchModalProgressBar
              (updateStrongSearchProgressBar f2 status2 (updateStrongSearchProgressBar f status s)))
           = Some (display_percent_double f2)
       \<and> 0 \<le> display_percent_double f \<and> display_percent_double f \<le> 100
       \<and> display_percent_spec f \<le> display_percent_double f
       \<and> display_percent_double f \<le> display_percent_spec f + 1
       \<and> (max 0 (min 1 f) * 100 = of_int k
            \<longrightarrow> display_percent_double f = k \<and> display_percent_spec f = k)
       \<and> display_percent_double minusTwoTenths = 0
       \<and> display_percent_double (15 / 10) = 100
       \<and> display_percent_double (5 / 10) = 50"
proof -
  note b1 = bar_progress [OF assms, of f status]
  note b2 = bar_progress [OF b1, of f2 status2]
  have r: "0 \<le> display_percent_double f" "display_percent_double f \<le> 100"
    using percent_clamp [of f] by linarith+
  have w: "max 0 (min 1 f) * 100 = of_int k
            \<longrightarrow> display_percent_double f = k \<and> display_percent_spec f = k"
  proof
    assume e: "max 0 (min 1 f) * 100 = of_int k"
    have "\<bar>max 0 (min 1 f) * 100\<bar> \<le> 100" by (auto simp: max_def min_def)
    then have "\<bar>of_int k :: real\<bar> \<le> 100" unfolding e .
    then have "doubleOf (of_int k) = of_int k" by (rule doubleOf_whole)
    then show "display_percent_double f = k \<and> display_percent_spec f = k"
      by (simp add: display_percent_double_def display_percent_spec_def e)
  qed
  note ex = percent_examples(3,4,5)
  show ?thesis
    unfolding b1 b2 using r double_against_exact [of f] w ex by simp
qed

theorem progress_display_percent_witness:
  "strongSearchModalProgressBar idleState = Some \<lparr>percent = 0, title = None\<rparr>
 \<and> map_option percent
      (strongSearchModalProgressBar
         (updateStrongSearchProgressBar fifteenThousandths ''late'' idleState))
      = Some 2
 \<and> map_option percent
      (strongSearchModalProgressBar
         (updateStrongSearchProgressBar minusTwoTenths ''rewind''
            (updateStrongSearchProgressBar fifteenThousandths ''late'' idleState)))
      = Some 0
 \<and> max 0 (min 1 (9 / 2)) * 100 = (of_int 100 :: real)
 \<and> display_percent_double (9 / 2) = 100
 \<and> display_percent_spec (9 / 2) = 100"
proof -
  note b = idleState_bar
  note d = percent_examples(1,3)
  have e: "max 0 (min 1 (9 / 2)) * 100 = (of_int 100 :: real)" by simp
  show ?thesis
    using b d e
      progress_display_percent [OF b, of fifteenThousandths "''late''" minusTwoTenths
        "''rewind''" 100]
      progress_display_percent [OF b, of "9 / 2" "''late''" minusTwoTenths "''rewind''" 100]
    by simp
qed

end
